theory Spec2Isabelle
  imports Complex_Main "HOL-Library.AList" "HOL-Library.Sublist"
begin

section \<open>Data model\<close>

text \<open>
  The records follow the dictionaries the Python code builds. Prices, tax rates,
  confidences and clock readings are Python floats in the source; they are modelled as
  exact rationals, so the theorems below speak about the arithmetic the code asks for,
  not about binary rounding. Python integers are \<open>int\<close>.

  The results of \<open>uuid.uuid4()\<close> and \<open>datetime.now()\<close> are inputs of the model: every
  function that draws one takes the drawn value as an argument.
\<close>

record product =
  p_id :: string
  p_name :: string
  p_price :: rat
  p_category :: string
  p_stock :: int

record cart_item =
  ci_id :: string
  ci_product_id :: string
  ci_product_name :: string
  ci_price :: rat
  ci_category :: string
  ci_timestamp :: string
  ci_scanner_source :: string

record cart =
  items :: "cart_item list"
  last_updated :: "string option"
  created_at :: string

text \<open>\<open>CartManager.carts\<close>: session id to cart.\<close>

type_synonym carts = "string \<rightharpoonup> cart"

record summary_entry =
  se_product_id :: string
  se_product_name :: string
  se_price :: rat
  se_quantity :: int

record summary =
  s_items :: "summary_entry list"
  total_items :: nat
  unique_items :: nat
  s_last_updated :: "string option"
  s_created_at :: "string option"

text \<open>What one call of \<open>CartManager.add_item\<close> draws from the environment, in the order of
  the source: the clock of a lazily created cart, the uuid, the item's timestamp and the
  cart's \<open>last_updated\<close>.\<close>

record draws =
  now_created :: string
  uuid4 :: string
  now_item :: string
  now_updated :: string

section \<open>CartManager\<close>

definition default_session :: string where
  "default_session = ''default''"

text \<open>\<open>if not session_id: session_id = self.default_session\<close>: both \<open>None\<close> and the
  empty string are falsy.\<close>

definition session_key :: "string option \<Rightarrow> string" where
  "session_key session_id =
     (case session_id of
        None \<Rightarrow> default_session
      | Some s \<Rightarrow> if s = [] then default_session else s)"

definition get_cart :: "carts \<Rightarrow> string option \<Rightarrow> string \<Rightarrow> cart \<times> carts" where
  "get_cart cm session_id now =
     (let sid = session_key session_id in
      case cm sid of
        Some c \<Rightarrow> (c, cm)
      | None \<Rightarrow>
          (let c = \<lparr>items = [], last_updated = None, created_at = now\<rparr>
           in (c, cm(sid \<mapsto> c))))"

text \<open>The source mutates the cart object that \<open>get_cart\<close> returned; the model writes the
  changed cart back under the same key.\<close>

definition add_item :: "carts \<Rightarrow> product \<Rightarrow> string option \<Rightarrow> draws \<Rightarrow> cart_item \<times> carts" where
  "add_item cm product session_id d =
     (let (c, cm1) = get_cart cm session_id (now_created d);
          item = \<lparr>ci_id = uuid4 d,
                  ci_product_id = p_id product,
                  ci_product_name = p_name product,
                  ci_price = p_price product,
                  ci_category = p_category product,
                  ci_timestamp = now_item d,
                  ci_scanner_source = ''pyqt''\<rparr>;
          c' = c\<lparr>items := items c @ [item], last_updated := Some (now_updated d)\<rparr>
      in (item, cm1(session_key session_id \<mapsto> c')))"

definition clear_cart :: "carts \<Rightarrow> string option \<Rightarrow> string \<Rightarrow> string \<Rightarrow> carts" where
  "clear_cart cm session_id now_c now_u =
     (let (c, cm1) = get_cart cm session_id now_c
      in cm1(session_key session_id \<mapsto> c\<lparr>items := [], last_updated := Some now_u\<rparr>))"

text \<open>The \<open>summary\<close> dictionary of \<open>get_summary\<close> keeps insertion order (Python 3.7+), so it
  is an association list: a key that is present is updated in place, a new key goes to the
  end.\<close>

definition group_step :: "(string \<times> summary_entry) list \<Rightarrow> cart_item \<Rightarrow> (string \<times> summary_entry) list" where
  "group_step acc item =
     (let pid = ci_product_id item in
      case map_of acc pid of
        Some e \<Rightarrow> AList.map_entry pid (\<lambda>e. e\<lparr>se_quantity := se_quantity e + 1\<rparr>) acc
      | None \<Rightarrow>
          acc @ [(pid, \<lparr>se_product_id = pid,
                        se_product_name = ci_product_name item,
                        se_price = ci_price item,
                        se_quantity = 1\<rparr>)])"

definition group_items :: "cart_item list \<Rightarrow> (string \<times> summary_entry) list" where
  "group_items xs = foldl group_step [] xs"

definition get_summary :: "carts \<Rightarrow> string option \<Rightarrow> string \<Rightarrow> summary \<times> carts" where
  "get_summary cm session_id now =
     (let (c, cm1) = get_cart cm session_id now;
          grouped = group_items (items c)
      in (\<lparr>s_items = map snd grouped,
           total_items = length (items c),
           unique_items = length grouped,
           s_last_updated = last_updated c,
           s_created_at = Some (created_at c)\<rparr>, cm1))"

text \<open>\<open>GET /api/cart\<close>.\<close>

definition get_cart_endpoint :: "carts \<Rightarrow> string option \<Rightarrow> string \<Rightarrow> summary \<times> carts" where
  "get_cart_endpoint cm session_id now = get_summary cm session_id now"

section \<open>Strings\<close>

text \<open>
  A string is the UTF-8 encoding of the Python string. The characters that the code
  replaces or strips (dash, underscore, space, apostrophe) are ASCII, so replacing them
  byte by byte is \<open>str.replace\<close>, and equality and the substring test \<open>in\<close> agree on code
  points and on their encodings.

  \<open>str.lower\<close> is a builtin of Python with the whole Unicode case table behind it. It is
  not modelled: every function that calls it takes it as the parameter \<open>lower\<close>, and the
  theorems hold whatever function it is, so for every input string. The examples are
  ASCII, where \<open>str.lower\<close> is \<open>ascii_lower\<close>.
\<close>

definition ascii_lower_char :: "char \<Rightarrow> char" where
  "ascii_lower_char c =
     (case map_of (zip ''ABCDEFGHIJKLMNOPQRSTUVWXYZ'' ''abcdefghijklmnopqrstuvwxyz'') c of
        Some l \<Rightarrow> l
      | None \<Rightarrow> c)"

definition ascii_lower :: "string \<Rightarrow> string" where
  "ascii_lower s = map ascii_lower_char s"

definition replace :: "char \<Rightarrow> string \<Rightarrow> string \<Rightarrow> string" where
  "replace old new s = concat (map (\<lambda>c. if c = old then new else [c]) s)"

fun string_of_nat :: "nat \<Rightarrow> string" where
  "string_of_nat n =
     (if n < 10 then [''0123456789'' ! n]
      else string_of_nat (n div 10) @ [''0123456789'' ! (n mod 10)])"

declare string_of_nat.simps [simp del]

definition string_of_int :: "int \<Rightarrow> string" where
  "string_of_int i =
     (if i < 0 then CHR ''-'' # string_of_nat (nat (- i)) else string_of_nat (nat i))"

section \<open>JsonDatabase (services/json\_db.py)\<close>

text \<open>The JSON file is one value read and written as a whole; every operation takes the
  database and returns the new one. The lock around file access is not modelled.\<close>

record payment_item =
  pi_product_id :: string
  pi_product_name :: string
  pi_quantity :: int
  pi_price :: rat
  pi_total :: rat

record payment =
  pay_payment_id :: string
  pay_timestamp :: string
  pay_items :: "payment_item list"
  pay_subtotal :: rat
  pay_tax :: rat
  pay_total :: rat
  pay_status :: string
  pay_qr_code :: string
  pay_session_id :: string

record sale =
  sale_id :: string
  sale_payment_id :: string
  sale_timestamp :: string
  sale_items :: "payment_item list"
  sale_subtotal :: rat
  sale_tax :: rat
  sale_total :: rat
  sale_payment_method :: string

record settings =
  theme :: "string option"
  tax_rate :: "rat option"

record database =
  products :: "product list"
  sales :: "sale list"
  pending_payments :: "string \<rightharpoonup> payment"
  db_settings :: settings

definition get_products :: "database \<Rightarrow> product list" where
  "get_products db = products db"

definition get_product :: "database \<Rightarrow> string \<Rightarrow> product option" where
  "get_product db product_id = find (\<lambda>p. p_id p = product_id) (get_products db)"

text \<open>The loop of \<open>update_stock\<close> over the products; \<open>None\<close> is \<open>return False\<close>.\<close>

fun update_stock_loop :: "product list \<Rightarrow> string \<Rightarrow> int \<Rightarrow> string \<Rightarrow> product list option" where
  "update_stock_loop [] product_id quantity operation = None"
| "update_stock_loop (p # ps) product_id quantity operation =
     (if p_id p = product_id then
        (if operation = ''add'' then Some (p\<lparr>p_stock := p_stock p + quantity\<rparr> # ps)
         else if operation = ''subtract'' then
           (if p_stock p \<ge> quantity then Some (p\<lparr>p_stock := p_stock p - quantity\<rparr> # ps)
            else None)
         else Some (p # ps))
      else map_option ((#) p) (update_stock_loop ps product_id quantity operation))"

definition update_stock :: "database \<Rightarrow> string \<Rightarrow> int \<Rightarrow> string \<Rightarrow> bool \<times> database" where
  "update_stock db product_id quantity operation =
     (case update_stock_loop (get_products db) product_id quantity operation of
        None \<Rightarrow> (False, db)
      | Some ps \<Rightarrow> (True, db\<lparr>products := ps\<rparr>))"

definition add_pending_payment :: "database \<Rightarrow> string \<Rightarrow> payment \<Rightarrow> database" where
  "add_pending_payment db payment_id payment_data =
     db\<lparr>pending_payments := (pending_payments db)(payment_id \<mapsto> payment_data)\<rparr>"

definition get_pending_payment :: "database \<Rightarrow> string \<Rightarrow> payment option" where
  "get_pending_payment db payment_id = pending_payments db payment_id"

text \<open>The inner loop of \<open>process_pending_payment\<close>: the first product with the line's id is
  decremented when its stock suffices, and the loop breaks there in either case.\<close>

fun decrement_first :: "product list \<Rightarrow> payment_item \<Rightarrow> product list" where
  "decrement_first [] item = []"
| "decrement_first (p # ps) item =
     (if p_id p = pi_product_id item then
        (if p_stock p \<ge> pi_quantity item
         then p\<lparr>p_stock := p_stock p - pi_quantity item\<rparr> # ps
         else p # ps)
      else p # decrement_first ps item)"

text \<open>\<open>now_stamp\<close> is \<open>datetime.now().strftime('%Y%m%d%H%M%S')\<close>, \<open>now_iso\<close> is
  \<open>datetime.now().isoformat()\<close>.\<close>

definition process_pending_payment ::
  "database \<Rightarrow> string \<Rightarrow> string \<Rightarrow> string \<Rightarrow> sale option \<times> database" where
  "process_pending_payment db payment_id now_stamp now_iso =
     (case pending_payments db payment_id of
        None \<Rightarrow> (None, db)
      | Some pending_payment \<Rightarrow>
          if pay_status pending_payment \<noteq> ''pending'' then (None, db)
          else
            (let s = \<lparr>sale_id = ''SALE-'' @ now_stamp,
                      sale_payment_id = payment_id,
                      sale_timestamp = now_iso,
                      sale_items = pay_items pending_payment,
                      sale_subtotal = pay_subtotal pending_payment,
                      sale_tax = pay_tax pending_payment,
                      sale_total = pay_total pending_payment,
                      sale_payment_method = ''qr_code''\<rparr>;
                 ps = foldl decrement_first (get_products db) (pay_items pending_payment)
             in (Some s,
                 db\<lparr>pending_payments :=
                       (pending_payments db)
                         (payment_id \<mapsto> pending_payment\<lparr>pay_status := ''completed''\<rparr>),
                    sales := sales db @ [s],
                    products := ps\<rparr>)))"

definition get_settings :: "database \<Rightarrow> settings" where
  "get_settings db = db_settings db"

section \<open>Endpoints (smart-checkout-optimized/main.py)\<close>

text \<open>A handler returns either its payload or a \<open>JSONResponse\<close> with a status code and an
  error body. Broadcasts over the websockets and log lines do not change the carts or the
  database and are left out.\<close>

datatype content =
  ErrorContent string
| StockContent string int int

datatype 'a response =
  Payload 'a
| JSONResponse nat content

definition strip_separators :: "string \<Rightarrow> string" where
  "strip_separators s = replace CHR ''_'' [] (replace CHR ''-'' [] s)"

fun first_variant :: "database \<Rightarrow> string list \<Rightarrow> product option" where
  "first_variant db [] = None"
| "first_variant db (v # vs) =
     (case get_product db v of
        Some p \<Rightarrow> Some p
      | None \<Rightarrow> first_variant db vs)"

definition variations :: "(string \<Rightarrow> string) \<Rightarrow> string \<Rightarrow> string list" where
  "variations lower product_id =
     [replace CHR ''_'' ''-'' product_id,
      replace CHR ''-'' ''_'' product_id,
      lower product_id,
      replace CHR ''_'' ''-'' (lower product_id),
      replace CHR ''-'' ''_'' (lower product_id)]"

definition partial_match :: "(string \<Rightarrow> string) \<Rightarrow> string \<Rightarrow> product \<Rightarrow> bool" where
  "partial_match lower product_id p \<longleftrightarrow>
     sublist (lower product_id) (lower (p_id p)) \<or>
     lower (strip_separators (p_id p)) = lower (strip_separators product_id)"

definition get_product_flexible :: "(string \<Rightarrow> string) \<Rightarrow> database \<Rightarrow> string \<Rightarrow> product option" where
  "get_product_flexible lower db product_id =
     (case get_product db product_id of
        Some p \<Rightarrow> Some p
      | None \<Rightarrow>
          (case first_variant db (variations lower product_id) of
             Some p \<Rightarrow> Some p
           | None \<Rightarrow> find (partial_match lower product_id) (get_products db)))"

text \<open>\<open>for _ in range(quantity)\<close>: \<open>k\<close> counts the iterations done, the last argument those
  left; the \<open>k\<close>-th iteration draws \<open>ds k\<close>.\<close>

fun add_units ::
  "carts \<Rightarrow> product \<Rightarrow> string option \<Rightarrow> (nat \<Rightarrow> draws) \<Rightarrow> nat \<Rightarrow> nat \<Rightarrow> cart_item list \<times> carts" where
  "add_units cm product session_id ds k 0 = ([], cm)"
| "add_units cm product session_id ds k (Suc n) =
     (let (item, cm1) = add_item cm product session_id (ds k);
          (rest, cm2) = add_units cm1 product session_id ds (Suc k) n
      in (item # rest, cm2))"

record add_result =
  ar_success :: bool
  ar_message :: string
  ar_cart_summary :: summary
  ar_items_added :: "cart_item list"

definition add_to_cart ::
  "(string \<Rightarrow> string) \<Rightarrow> carts \<Rightarrow> database \<Rightarrow> string \<Rightarrow> string option \<Rightarrow> int \<Rightarrow> (nat \<Rightarrow> draws) \<Rightarrow> string \<Rightarrow>
   add_result response \<times> carts" where
  "add_to_cart lower cm db product_id session_id quantity ds now =
     (case get_product_flexible lower db product_id of
        None \<Rightarrow>
          (JSONResponse 404 (ErrorContent (''Product '' @ product_id @ '' not found'')), cm)
      | Some product \<Rightarrow>
          if p_stock product < quantity then
            (JSONResponse 400
               (StockContent (''Insufficient stock for '' @ p_name product)
                  (p_stock product) quantity), cm)
          else
            (let (added_items, cm1) = add_units cm product session_id ds 0 (nat quantity);
                 (summ, cm2) = get_summary cm1 session_id now
             in (Payload \<lparr>ar_success = True,
                           ar_message = ''Added '' @ string_of_int quantity @ ''x '' @
                                        p_name product @ '' to cart'',
                           ar_cart_summary = summ,
                           ar_items_added = added_items\<rparr>, cm2)))"

record batch_item =
  bi_product_id :: string
  bi_quantity :: int

text \<open>The loop of \<open>add_batch_to_cart\<close> with its two accumulators; item \<open>j\<close> draws from
  \<open>ds j\<close>.\<close>

fun batch_loop ::
  "(string \<Rightarrow> string) \<Rightarrow> database \<Rightarrow> string option \<Rightarrow> (nat \<Rightarrow> nat \<Rightarrow> draws) \<Rightarrow> nat \<Rightarrow> batch_item list \<Rightarrow>
   cart_item list \<Rightarrow> string list \<Rightarrow> carts \<Rightarrow> cart_item list \<times> string list \<times> carts" where
  "batch_loop lower db session_id ds j [] results errors cm = (results, errors, cm)"
| "batch_loop lower db session_id ds j (item # rest) results errors cm =
     (case get_product_flexible lower db (bi_product_id item) of
        None \<Rightarrow>
          batch_loop lower db session_id ds (Suc j) rest results
            (errors @ [''Product '' @ bi_product_id item @ '' not found'']) cm
      | Some product \<Rightarrow>
          if p_stock product < bi_quantity item then
            batch_loop lower db session_id ds (Suc j) rest results
              (errors @ [''Insufficient stock for '' @ p_name product]) cm
          else
            (let (added, cm1) = add_units cm product session_id (ds j) 0 (nat (bi_quantity item))
             in batch_loop lower db session_id ds (Suc j) rest (results @ added) errors cm1))"

record batch_result =
  br_success :: bool
  br_items_added :: nat
  br_errors :: "string list"
  br_cart_summary :: summary

definition add_batch_to_cart ::
  "(string \<Rightarrow> string) \<Rightarrow> carts \<Rightarrow> database \<Rightarrow> batch_item list \<Rightarrow> string option \<Rightarrow> (nat \<Rightarrow> nat \<Rightarrow> draws) \<Rightarrow> string \<Rightarrow>
   batch_result \<times> carts" where
  "add_batch_to_cart lower cm db batch session_id ds now =
     (let (results, errors, cm1) = batch_loop lower db session_id ds 0 batch [] [] cm;
          (summ, cm2) = get_summary cm1 session_id now
      in (\<lparr>br_success = (length results > 0),
           br_items_added = length results,
           br_errors = errors,
           br_cart_summary = summ\<rparr>, cm2))"

text \<open>What \<open>checkout_cart\<close> draws: the clock of \<open>get_summary\<close>, the payment's uuid and
  timestamp, the rendered QR image (the work of the \<open>qrcode\<close> library, kept opaque), and
  the clock of \<open>clear_cart\<close>.\<close>

record checkout_draws =
  cd_now_summary :: string
  cd_payment_id :: string
  cd_timestamp :: string
  cd_qr_code :: string
  cd_now_cleared :: string

definition subtotal_of :: "summary_entry list \<Rightarrow> rat" where
  "subtotal_of es = sum_list (map (\<lambda>item. se_price item * of_int (se_quantity item)) es)"

definition payment_line :: "summary_entry \<Rightarrow> payment_item" where
  "payment_line item =
     \<lparr>pi_product_id = se_product_id item,
      pi_product_name = se_product_name item,
      pi_quantity = se_quantity item,
      pi_price = se_price item,
      pi_total = se_price item * of_int (se_quantity item)\<rparr>"

definition checkout_cart ::
  "carts \<Rightarrow> database \<Rightarrow> string option \<Rightarrow> checkout_draws \<Rightarrow> payment response \<times> carts \<times> database" where
  "checkout_cart cm db session_id d =
     (let (summ, cm1) = get_summary cm session_id (cd_now_summary d) in
      if total_items summ = 0 then
        (JSONResponse 400 (ErrorContent ''Cart is empty''), cm1, db)
      else
        (let payment_id = cd_payment_id d;
             subtotal = subtotal_of (s_items summ);
             rate = (case tax_rate (get_settings db) of None \<Rightarrow> 7 / 100 | Some r \<Rightarrow> r);
             tax = subtotal * rate;
             total = subtotal + tax;
             pending_payment =
               \<lparr>pay_payment_id = payment_id,
                pay_timestamp = cd_timestamp d,
                pay_items = map payment_line (s_items summ),
                pay_subtotal = subtotal,
                pay_tax = tax,
                pay_total = total,
                pay_status = ''pending'',
                pay_qr_code = cd_qr_code d,
                pay_session_id = session_key session_id\<rparr>;
             db1 = add_pending_payment db payment_id pending_payment;
             cm2 = clear_cart cm1 session_id (cd_now_cleared d) (cd_now_cleared d)
         in (Payload pending_payment, cm2, db1)))"

definition restock_product :: "database \<Rightarrow> string \<Rightarrow> int \<Rightarrow> string response \<times> database" where
  "restock_product db product_id quantity =
     (let (success, db1) = update_stock db product_id quantity ''add'' in
      if success then (Payload ''Product restocked successfully'', db1)
      else (JSONResponse 400 (ErrorContent ''Failed to restock''), db1))"

definition confirm_payment ::
  "database \<Rightarrow> string \<Rightarrow> string \<Rightarrow> string \<Rightarrow> sale response \<times> database" where
  "confirm_payment db payment_id now_stamp now_iso =
     (case get_pending_payment db payment_id of
        None \<Rightarrow> (JSONResponse 404 (ErrorContent ''Payment not found''), db)
      | Some pending_payment \<Rightarrow>
          if pay_status pending_payment \<noteq> ''pending'' then
            (JSONResponse 400 (ErrorContent ''Payment already processed''), db)
          else
            (case process_pending_payment db payment_id now_stamp now_iso of
               (Some s, db1) \<Rightarrow> (Payload s, db1)
             | (None, db1) \<Rightarrow>
                 (JSONResponse 400 (ErrorContent ''Failed to process payment''), db1)))"

text \<open>A run of the service: the requests that touch the stock ledger, each with what it
  draws from the environment. \<open>OpSubtract\<close> is a direct call of
  \<open>update_stock(..., operation="subtract")\<close>.\<close>

datatype operation =
  OpAddToCart string "string option" int "nat \<Rightarrow> draws" string
| OpCheckout "string option" checkout_draws
| OpConfirm string string string
| OpRestock string int
| OpSubtract string int

fun step :: "(string \<Rightarrow> string) \<Rightarrow> carts \<times> database \<Rightarrow> operation \<Rightarrow> carts \<times> database" where
  "step lower (cm, db) (OpAddToCart product_id session_id quantity ds now) =
     (snd (add_to_cart lower cm db product_id session_id quantity ds now), db)"
| "step lower (cm, db) (OpCheckout session_id d) = snd (checkout_cart cm db session_id d)"
| "step lower (cm, db) (OpConfirm payment_id now_stamp now_iso) =
     (cm, snd (confirm_payment db payment_id now_stamp now_iso))"
| "step lower (cm, db) (OpRestock product_id quantity) =
     (cm, snd (restock_product db product_id quantity))"
| "step lower (cm, db) (OpSubtract product_id quantity) =
     (cm, snd (update_stock db product_id quantity ''subtract''))"

definition run :: "(string \<Rightarrow> string) \<Rightarrow> carts \<times> database \<Rightarrow> operation list \<Rightarrow> carts \<times> database" where
  "run lower st ops = foldl (step lower) st ops"

definition stock_nonneg :: "database \<Rightarrow> bool" where
  "stock_nonneg db \<longleftrightarrow> list_all (\<lambda>p. 0 \<le> p_stock p) (products db)"

fun restock_nonneg :: "operation \<Rightarrow> bool" where
  "restock_nonneg (OpRestock product_id quantity) \<longleftrightarrow> 0 \<le> quantity"
| "restock_nonneg _ \<longleftrightarrow> True"

section \<open>Detection client (detection/detection\_client.py)\<close>

text \<open>\<open>MinimalDetectionClient.products\<close>: detector class name to web product id and
  price.\<close>

definition apostrophe :: char where
  "apostrophe = CHR 0x27"

definition lays :: string where
  "lays = ''Lay'' @ [apostrophe] @ ''s''"

definition products_table :: "(string \<times> string \<times> rat) list" where
  "products_table =
     [(lays @ ''-Flat-Original-Flavor'', ''lays-flat-original'', 20),
      (lays @ ''-Nori-Seaweed-Flavor'', ''lays-nori-seaweed'', 25),
      (lays @ ''-Ridged-Original-Flavor'', ''lays-ridged-original'', 22),
      (''Snackjack-Original-Flavor'', ''snackjack-original'', 18),
      (''Tasto-Japanese-Seaweed-Flavor'', ''tasto-japanese-seaweed'', 24),
      (''Tasto-Original-Flavor'', ''tasto-original'', 22),
      (''Enter'', ''enter'', 18),
      (''Atreus'', ''atreus'', 22),
      (''CocaCola-Bottle'', ''coca-cola-bottle'', 18),
      (''CocaCola-Can'', ''coca-cola-can'', 14),
      (''Crystal-Water'', ''crystal-water'', 7),
      (''Fanta-FruitPunch-Flavor'', ''fanta-fruit-punch'', 14),
      (''Pepsi'', ''pepsi'', 14),
      (''Sprite'', ''sprite'', 14)]"

text \<open>The fallback of \<open>send_to_cart\<close>:
  \<open>class_name.lower().replace(" ", "-").replace("'", "")\<close>.\<close>

definition auto_format :: "(string \<Rightarrow> string) \<Rightarrow> string \<Rightarrow> string" where
  "auto_format lower class_name =
     replace apostrophe [] (replace CHR '' '' ''-'' (lower class_name))"

definition web_product_id :: "(string \<Rightarrow> string) \<Rightarrow> string \<Rightarrow> string" where
  "web_product_id lower class_name =
     (case map_of products_table class_name of
        Some (web_id, price) \<Rightarrow> web_id
      | None \<Rightarrow> auto_format lower class_name)"

text \<open>What the service looks up for a detection that the client posts to
  \<open>/api/add-to-cart\<close>.\<close>

definition resolve :: "(string \<Rightarrow> string) \<Rightarrow> database \<Rightarrow> string \<Rightarrow> product option" where
  "resolve lower db class_name = get_product_flexible lower db (web_product_id lower class_name)"

text \<open>The normal form in the words of the specification, for comparison with
  \<open>auto_format\<close>: lowercase, every run of whitespace collapsed to a single dash,
  apostrophes stripped. The flag says that the previous character was whitespace.\<close>

definition is_space :: "char \<Rightarrow> bool" where
  "is_space c \<longleftrightarrow> c \<in> set [CHR '' '', CHR 0x09, CHR 0x0A, CHR 0x0B, CHR 0x0C, CHR 0x0D]"

fun collapse_whitespace :: "bool \<Rightarrow> string \<Rightarrow> string" where
  "collapse_whitespace prev [] = []"
| "collapse_whitespace prev (c # cs) =
     (if is_space c then
        (if prev then collapse_whitespace True cs else CHR ''-'' # collapse_whitespace True cs)
      else c # collapse_whitespace False cs)"

definition spec_normalize :: "(string \<Rightarrow> string) \<Rightarrow> string \<Rightarrow> string" where
  "spec_normalize lower label = replace apostrophe [] (collapse_whitespace False (lower label))"

section \<open>Detector (self-checkout-system/detection/yolo\_detector.py)\<close>

text \<open>Box corners are Python integers. The quotient of \<open>_calculate_iou\<close> is an exact
  rational here; its comparison with the threshold agrees with the float comparison as
  long as the areas stay far below \<open>2^53\<close>, as pixel areas do.\<close>

type_synonym box = "int \<times> int \<times> int \<times> int"

record detection =
  class_name :: string
  confidence :: rat
  bbox :: box
  category :: string

definition calculate_iou :: "box \<Rightarrow> box \<Rightarrow> rat" where
  "calculate_iou box1 box2 =
     (case box1 of (x1_1, y1_1, x2_1, y2_1) \<Rightarrow>
      case box2 of (x1_2, y1_2, x2_2, y2_2) \<Rightarrow>
        (let x1_i = max x1_1 x1_2;
             y1_i = max y1_1 y1_2;
             x2_i = min x2_1 x2_2;
             y2_i = min y2_1 y2_2
         in if x2_i < x1_i \<or> y2_i < y1_i then 0
            else
              (let intersection = (x2_i - x1_i) * (y2_i - y1_i);
                   area1 = (x2_1 - x1_1) * (y2_1 - y1_1);
                   area2 = (x2_2 - x1_2) * (y2_2 - y1_2);
                   union = area1 + area2 - intersection
               in if union > 0 then of_int intersection / of_int union else 0)))"

text \<open>The inner loop over the detections selected so far, with its \<open>break\<close>.\<close>

fun is_duplicate :: "rat \<Rightarrow> detection \<Rightarrow> detection list \<Rightarrow> bool" where
  "is_duplicate iou_threshold d [] = False"
| "is_duplicate iou_threshold d (selected # rest) =
     (if calculate_iou (bbox d) (bbox selected) > iou_threshold then
        (if class_name d = class_name selected then True
         else is_duplicate iou_threshold d rest)
      else is_duplicate iou_threshold d rest)"

definition filter_step :: "rat \<Rightarrow> detection list \<Rightarrow> detection \<Rightarrow> detection list" where
  "filter_step iou_threshold filtered d =
     (if \<not> is_duplicate iou_threshold d filtered then filtered @ [d] else filtered)"

text \<open>\<open>sorted(..., key=confidence, reverse=True)\<close> is stable: equal confidences keep their
  input order, as the stable \<open>sort_key\<close> on the negated key does.\<close>

definition sort_by_confidence :: "detection list \<Rightarrow> detection list" where
  "sort_by_confidence detections = sort_key (\<lambda>x. - confidence x) detections"

definition filter_overlapping_detections :: "detection list \<Rightarrow> rat \<Rightarrow> detection list" where
  "filter_overlapping_detections detections iou_threshold =
     (if detections = [] then []
      else foldl (filter_step iou_threshold) [] (sort_by_confidence detections))"

definition default_iou_threshold :: rat where
  "default_iou_threshold = 1 / 2"

text \<open>\<open>DetectionDebouncer\<close>; \<open>current_time\<close> is what \<open>time.time()\<close> returned.\<close>

record debouncer =
  debounce_time :: rat
  last_detections :: "string \<rightharpoonup> rat"

definition new_debouncer :: debouncer where
  "new_debouncer = \<lparr>debounce_time = 1, last_detections = Map.empty\<rparr>"

definition is_new_detection :: "debouncer \<Rightarrow> string \<Rightarrow> rat \<Rightarrow> bool \<times> debouncer" where
  "is_new_detection self name current_time =
     (case last_detections self name of
        Some seen \<Rightarrow>
          if current_time - seen < debounce_time self then (False, self)
          else (True, self\<lparr>last_detections := (last_detections self)(name \<mapsto> current_time)\<rparr>)
      | None \<Rightarrow>
          (True, self\<lparr>last_detections := (last_detections self)(name \<mapsto> current_time)\<rparr>))"

section \<open>Example data\<close>

definition ex_cola :: product where
  "ex_cola = \<lparr>p_id = ''cola-can'', p_name = ''Cola'', p_price = 14,
              p_category = ''drinks'', p_stock = 5\<rparr>"

definition ex_chips :: product where
  "ex_chips = \<lparr>p_id = ''lays-flat-original'', p_name = ''Chips'', p_price = 20,
               p_category = ''chips'', p_stock = 0\<rparr>"

definition ex_water :: product where
  "ex_water = \<lparr>p_id = ''crystal-water'', p_name = ''Water'', p_price = 7,
               p_category = ''drinks'', p_stock = 3\<rparr>"

definition ex_db :: database where
  "ex_db = \<lparr>products = [ex_cola, ex_chips, ex_water], sales = [],
            pending_payments = Map.empty,
            db_settings = \<lparr>theme = Some ''light'', tax_rate = None\<rparr>\<rparr>"

definition ex_draws :: "nat \<Rightarrow> draws" where
  "ex_draws k = \<lparr>now_created = ''t0'', uuid4 = ''u'' @ string_of_nat k,
                 now_item = ''t1'', now_updated = ''t2''\<rparr>"

definition ex_line :: "string \<Rightarrow> product \<Rightarrow> cart_item" where
  "ex_line u p = \<lparr>ci_id = u, ci_product_id = p_id p, ci_product_name = p_name p,
                  ci_price = p_price p, ci_category = p_category p,
                  ci_timestamp = ''t1'', ci_scanner_source = ''pyqt''\<rparr>"

definition ex_cart :: cart where
  "ex_cart = \<lparr>items = [ex_line ''u0'' ex_cola, ex_line ''u1'' ex_water, ex_line ''u2'' ex_cola],
              last_updated = Some ''t2'', created_at = ''t0''\<rparr>"

definition ex_carts :: carts where
  "ex_carts = Map.empty(''default'' \<mapsto> ex_cart)"

definition ex_summary :: summary where
  "ex_summary =
     \<lparr>s_items = [\<lparr>se_product_id = ''cola-can'', se_product_name = ''Cola'',
                   se_price = 14, se_quantity = 2\<rparr>,
                 \<lparr>se_product_id = ''crystal-water'', se_product_name = ''Water'',
                   se_price = 7, se_quantity = 1\<rparr>],
      total_items = 3, unique_items = 2,
      s_last_updated = Some ''t2'', s_created_at = Some ''t0''\<rparr>"

text \<open>The lines of a session's cart, none when the session has no cart yet.\<close>

definition lines_of :: "carts \<Rightarrow> string option \<Rightarrow> cart_item list" where
  "lines_of cm session_id =
     (case cm (session_key session_id) of None \<Rightarrow> [] | Some c \<Rightarrow> items c)"

text \<open>The outcome of one batch item seen alone: the error string it produces, or \<open>None\<close>
  when it is added. It depends on the item and the catalog only.\<close>

definition item_error :: "(string \<Rightarrow> string) \<Rightarrow> database \<Rightarrow> batch_item \<Rightarrow> string option" where
  "item_error lower db item =
     (case get_product_flexible lower db (bi_product_id item) of
        None \<Rightarrow> Some (''Product '' @ bi_product_id item @ '' not found'')
      | Some product \<Rightarrow>
          if p_stock product < bi_quantity item
          then Some (''Insufficient stock for '' @ p_name product)
          else None)"

definition lines_due :: "(string \<Rightarrow> string) \<Rightarrow> database \<Rightarrow> batch_item \<Rightarrow> nat" where
  "lines_due lower db item = (if item_error lower db item = None then nat (bi_quantity item) else 0)"

definition ex_batch :: "batch_item list" where
  "ex_batch =
     [\<lparr>bi_product_id = ''cola-can'', bi_quantity = 1\<rparr>,
      \<lparr>bi_product_id = ''lays-flat-original'', bi_quantity = 1\<rparr>,
      \<lparr>bi_product_id = ''crystal-water'', bi_quantity = 1\<rparr>]"

definition ex_payment :: payment where
  "ex_payment =
     \<lparr>pay_payment_id = ''pay-1'', pay_timestamp = ''t4'',
      pay_items = [\<lparr>pi_product_id = ''cola-can'', pi_product_name = ''Cola'',
                     pi_quantity = 2, pi_price = 14, pi_total = 28\<rparr>],
      pay_subtotal = 28, pay_tax = 196 / 100, pay_total = 2996 / 100,
      pay_status = ''pending'', pay_qr_code = ''qr'', pay_session_id = ''default''\<rparr>"

definition ex_db_pending :: database where
  "ex_db_pending = add_pending_payment ex_db ''pay-1'' ex_payment"

text \<open>What the single step of \<open>decrement_first\<close> does to the product it stops at.\<close>

definition decrement_if_enough :: "int \<Rightarrow> product \<Rightarrow> product" where
  "decrement_if_enough quantity p =
     (if p_stock p \<ge> quantity then p\<lparr>p_stock := p_stock p - quantity\<rparr> else p)"

definition default_tax_rate :: rat where
  "default_tax_rate = 7 / 100"

definition effective_tax_rate :: "database \<Rightarrow> rat" where
  "effective_tax_rate db =
     (case tax_rate (get_settings db) of None \<Rightarrow> default_tax_rate | Some r \<Rightarrow> r)"

text \<open>A catalog with one unit of cola left, a cart filled by two requests for one unit
  each, its checkout and the confirmation of the payment.\<close>

definition ex_db_low :: database where
  "ex_db_low = ex_db\<lparr>products := [ex_cola\<lparr>p_stock := 1\<rparr>]\<rparr>"

definition ex_two_added :: carts where
  "ex_two_added =
     snd (add_to_cart ascii_lower
            (snd (add_to_cart ascii_lower Map.empty ex_db_low ''cola-can'' None 1 ex_draws ''t3''))
            ex_db_low ''cola-can'' None 1 ex_draws ''t3'')"

definition ex_checkout_draws :: checkout_draws where
  "ex_checkout_draws =
     \<lparr>cd_now_summary = ''t4'', cd_payment_id = ''pay-1'', cd_timestamp = ''t4'',
      cd_qr_code = ''qr'', cd_now_cleared = ''t5''\<rparr>"

definition ex_low_checkout :: "payment response \<times> carts \<times> database" where
  "ex_low_checkout = checkout_cart ex_two_added ex_db_low None ex_checkout_draws"

definition ex_low_confirm :: "sale response \<times> database" where
  "ex_low_confirm = confirm_payment (snd (snd ex_low_checkout)) ''pay-1'' ''s1'' ''i1''"

fun is_payload :: "'a response \<Rightarrow> bool" where
  "is_payload (Payload x) = True"
| "is_payload (JSONResponse code body) = False"

definition stock_of :: "database \<Rightarrow> string \<Rightarrow> int option" where
  "stock_of db product_id = map_option p_stock (get_product db product_id)"

definition ordered_quantities :: "payment response \<Rightarrow> int list" where
  "ordered_quantities r =
     (case r of Payload p \<Rightarrow> map pi_quantity (pay_items p) | JSONResponse code body \<Rightarrow> [])"

text \<open>When the detector counts \<open>d\<close> as a duplicate of an accepted \<open>s\<close>: same label and IoU
  above the threshold. \<open>greedy\<close> is the accepting loop on a list already sorted.\<close>

definition overlaps_same_label :: "rat \<Rightarrow> detection \<Rightarrow> detection \<Rightarrow> bool" where
  "overlaps_same_label t d s \<longleftrightarrow>
     class_name d = class_name s \<and> t < calculate_iou (bbox d) (bbox s)"

definition greedy :: "rat \<Rightarrow> detection list \<Rightarrow> detection list" where
  "greedy t xs = foldl (filter_step t) [] xs"

text \<open>Three boxes of one label in a row, each overlapping the next by more than half and
  the first and third by a quarter, and a box of another label on top of the second.\<close>

definition ex_A :: detection where
  "ex_A = \<lparr>class_name = ''Pepsi'', confidence = 9 / 10, bbox = (0, 0, 10, 10),
           category = ''drinks''\<rparr>"

definition ex_B :: detection where
  "ex_B = \<lparr>class_name = ''Pepsi'', confidence = 8 / 10, bbox = (3, 0, 13, 10),
           category = ''drinks''\<rparr>"

definition ex_C :: detection where
  "ex_C = \<lparr>class_name = ''Pepsi'', confidence = 7 / 10, bbox = (6, 0, 16, 10),
           category = ''drinks''\<rparr>"

definition ex_D :: detection where
  "ex_D = \<lparr>class_name = ''Sprite'', confidence = 6 / 10, bbox = (3, 0, 13, 10),
           category = ''drinks''\<rparr>"

text \<open>A catalog with the ids \<open>ab\<close> and \<open>a-b\<close>, in this order.\<close>

definition ex_db_ids :: database where
  "ex_db_ids =
     ex_db\<lparr>products := [ex_cola\<lparr>p_id := ''ab''\<rparr>, ex_water\<lparr>p_id := ''a-b''\<rparr>]\<rparr>"

text \<open>A catalog that holds the id \<open>Foo\<close> behind the id \<open>Foobar\<close>.\<close>

definition ex_db_foo :: database where
  "ex_db_foo =
     ex_db\<lparr>products := [ex_water\<lparr>p_id := ''Foobar''\<rparr>, ex_cola\<lparr>p_id := ''Foo''\<rparr>]\<rparr>"

text \<open>\<open>get_product_flexible\<close> on what \<open>item_data.get("product_id")\<close> hands over, a string
  or \<open>None\<close>. No product id equals \<open>None\<close>, so \<open>db.get_product(None)\<close> returns nothing, and
  \<open>product_id.replace\<close> then raises. On a string no operation of the function can raise:
  the catalog ids are strings, and \<open>replace\<close>, \<open>lower\<close>, \<open>in\<close> and \<open>==\<close> are total on
  strings.\<close>

datatype py_error = AttributeError

definition get_product_flexible_json ::
  "(string \<Rightarrow> string) \<Rightarrow> database \<Rightarrow> string option \<Rightarrow> py_error + product option" where
  "get_product_flexible_json lower db value =
     (case value of
        None \<Rightarrow> Inl AttributeError
      | Some product_id \<Rightarrow> Inr (get_product_flexible lower db product_id))"

section \<open>Properties of the cart summary\<close>

lemma group_items_snoc: "group_items (xs @ [x]) = group_step (group_items xs) x"
  by (simp add: group_items_def)

lemma map_fst_map_entry: "map fst (AList.map_entry k f al) = map fst al"
  by (induction al) auto

lemma group_step_keys_present:
  "map_of acc (ci_product_id x) = Some e \<Longrightarrow> map fst (group_step acc x) = map fst acc"
  by (simp add: group_step_def Let_def map_fst_map_entry)

lemma group_step_keys_absent:
  "map_of acc (ci_product_id x) = None \<Longrightarrow>
   map fst (group_step acc x) = map fst acc @ [ci_product_id x]"
  by (simp add: group_step_def Let_def)

lemma group_items_keys_set: "set (map fst (group_items xs)) = ci_product_id ` set xs"
proof (induction xs rule: rev_induct)
  case Nil
  show ?case by (simp add: group_items_def)
next
  case (snoc x xs)
  show ?case
  proof (cases "map_of (group_items xs) (ci_product_id x)")
    case None
    then show ?thesis
      using snoc by (simp add: group_items_snoc group_step_keys_absent)
  next
    case (Some e)
    then have "ci_product_id x \<in> set (map fst (group_items xs))"
      by (metis map_of_eq_None_iff option.distinct(1) set_map)
    with Some snoc show ?thesis
      by (auto simp: group_items_snoc group_step_keys_present)
  qed
qed

lemma group_items_keys_distinct: "distinct (map fst (group_items xs))"
proof (induction xs rule: rev_induct)
  case Nil
  show ?case by (simp add: group_items_def)
next
  case (snoc x xs)
  show ?case
  proof (cases "map_of (group_items xs) (ci_product_id x)")
    case None
    then have "ci_product_id x \<notin> set (map fst (group_items xs))"
      by (simp add: map_of_eq_None_iff)
    with None snoc show ?thesis
      by (simp add: group_items_snoc group_step_keys_absent)
  next
    case (Some e)
    with snoc show ?thesis
      by (simp add: group_items_snoc group_step_keys_present)
  qed
qed

text \<open>The entry stored under a product id: name and price of the first line with that id,
  quantity the number of lines with that id.\<close>

lemma group_items_lookup:
  "map_of (group_items xs) k =
     (case filter (\<lambda>l. ci_product_id l = k) xs of
        [] \<Rightarrow> None
      | l # ls \<Rightarrow> Some \<lparr>se_product_id = k,
                          se_product_name = ci_product_name l,
                          se_price = ci_price l,
                          se_quantity = 1 + int (length ls)\<rparr>)"
proof (induction xs rule: rev_induct)
  case Nil
  show ?case by (simp add: group_items_def)
next
  case (snoc x xs)
  show ?case
  proof (cases "map_of (group_items xs) (ci_product_id x)")
    case None
    then show ?thesis
      using snoc
      by (auto simp: group_items_snoc group_step_def Let_def map_add_def
               split: list.splits option.splits)
  next
    case (Some e)
    then show ?thesis
      using snoc
      by (auto simp: group_items_snoc group_step_def Let_def map_of_map_entry
               split: list.splits option.splits)
  qed
qed


lemma group_items_entry:
  assumes "(k, e) \<in> set (group_items xs)"
  shows "se_product_id e = k \<and>
         se_quantity e = int (length (filter (\<lambda>l. ci_product_id l = k) xs))"
proof -
  have "map_of (group_items xs) k = Some e"
    using assms group_items_keys_distinct by (simp add: map_of_eq_Some_iff)
  then show ?thesis
    by (auto simp: group_items_lookup split: list.splits)
qed

lemma group_items_ids: "map se_product_id (map snd (group_items xs)) = map fst (group_items xs)"
  using group_items_entry by (auto simp: map_eq_conv)

lemma group_items_length: "length (group_items xs) = card (ci_product_id ` set xs)"
proof -
  have "length (group_items xs) = length (map fst (group_items xs))"
    by simp
  also have "\<dots> = card (set (map fst (group_items xs)))"
    using group_items_keys_distinct by (simp only: distinct_card)
  finally show ?thesis
    by (simp only: group_items_keys_set)
qed

lemma get_cart_stored: "get_cart cm session_id now = (c, cm1) \<Longrightarrow> cm1 (session_key session_id) = Some c"
  by (auto simp: get_cart_def Let_def split: option.splits)

lemma get_cart_again:
  "get_cart cm session_id now = (c, cm1) \<Longrightarrow> get_cart cm1 session_id now' = (c, cm1)"
  by (auto simp: get_cart_def Let_def split: option.splits)

text \<open>
  C9. The cart summary is a derived view. Calling \<open>get_summary\<close> a second time, with no
  mutation in between and whatever the clock shows, returns the same summary and leaves
  the carts as the first call left them. The summary has one entry per distinct product
  id of the cart's lines, the quantity of an entry is the number of lines with its product
  id, \<open>total_items\<close> is the number of lines and \<open>unique_items\<close> the number of distinct
  product ids.
\<close>

theorem summary_is_derived_view:
  assumes "get_summary cm session_id t1 = (out, cm1)"
  shows "get_summary cm1 session_id t2 = (out, cm1) \<and>
         (\<exists>c. cm1 (session_key session_id) = Some c \<and>
              total_items out = length (items c) \<and>
              unique_items out = card (ci_product_id ` set (items c)) \<and>
              length (s_items out) = unique_items out \<and>
              distinct (map se_product_id (s_items out)) \<and>
              set (map se_product_id (s_items out)) = ci_product_id ` set (items c) \<and>
              (\<forall>e \<in> set (s_items out).
                 se_quantity e =
                   int (length (filter (\<lambda>l. ci_product_id l = se_product_id e) (items c)))))"
proof -
  obtain c where gc: "get_cart cm session_id t1 = (c, cm1)"
    and out: "out = \<lparr>s_items = map snd (group_items (items c)),
                     total_items = length (items c),
                     unique_items = length (group_items (items c)),
                     s_last_updated = last_updated c,
                     s_created_at = Some (created_at c)\<rparr>"
    using assms by (auto simp: get_summary_def Let_def split: prod.splits)
  have again: "get_summary cm1 session_id t2 = (out, cm1)"
    using get_cart_again [OF gc, of t2] out by (simp add: get_summary_def Let_def)
  have stored: "cm1 (session_key session_id) = Some c"
    using gc by (rule get_cart_stored)
  have qty: "\<forall>e \<in> set (s_items out).
               se_quantity e =
                 int (length (filter (\<lambda>l. ci_product_id l = se_product_id e) (items c)))"
    using group_items_entry by (fastforce simp: out)
  have ids: "map se_product_id (s_items out) = map fst (group_items (items c))"
    using group_items_ids [of "items c"] by (simp add: out)
  have counts: "total_items out = length (items c)"
    "unique_items out = card (ci_product_id ` set (items c))"
    "length (s_items out) = unique_items out"
    by (simp_all add: out group_items_length)
  have keys: "distinct (map se_product_id (s_items out))"
    "set (map se_product_id (s_items out)) = ci_product_id ` set (items c)"
    unfolding ids by (rule group_items_keys_distinct, rule group_items_keys_set)
  from again stored qty counts keys show ?thesis
    by blast
qed

theorem summary_is_derived_view_witness:
  "get_summary ex_carts None ''t3'' = (ex_summary, ex_carts) \<and>
   get_summary ex_carts None ''t4'' = (ex_summary, ex_carts) \<and>
   total_items ex_summary = 3 \<and> unique_items ex_summary = 2"
proof -
  have h: "get_summary ex_carts None ''t3'' = (ex_summary, ex_carts)"
    by (simp add: get_summary_def get_cart_def session_key_def default_session_def
        ex_carts_def ex_cart_def ex_line_def ex_cola_def ex_water_def group_items_def
        group_step_def Let_def ex_summary_def)
  from summary_is_derived_view [OF h, where ?t2.0 = "''t4''"] h show ?thesis
    by (simp add: ex_summary_def)
qed

section \<open>Reading a cart\<close>

text \<open>
  C10. \<open>GET /api/cart\<close> has no error result. For a session that has no cart yet, be it
  named, \<open>None\<close> or the empty string (both stand for the default session), the cart is
  created empty with the current time as \<open>created_at\<close>, and the summary returned has no
  items, \<open>total_items = 0\<close> and \<open>unique_items = 0\<close>.
\<close>

theorem get_cart_unseen_session:
  assumes "cm (session_key session_id) = None"
  shows "get_cart_endpoint cm session_id now =
           (\<lparr>s_items = [], total_items = 0, unique_items = 0,
             s_last_updated = None, s_created_at = Some now\<rparr>,
            cm(session_key session_id \<mapsto> \<lparr>items = [], last_updated = None, created_at = now\<rparr>)) \<and>
         session_key None = ''default'' \<and> session_key (Some []) = ''default''"
  using assms
  by (simp add: get_cart_endpoint_def get_summary_def get_cart_def group_items_def Let_def
      session_key_def default_session_def)

theorem get_cart_unseen_session_witness:
  "get_cart_endpoint Map.empty None ''t0'' =
     (\<lparr>s_items = [], total_items = 0, unique_items = 0,
       s_last_updated = None, s_created_at = Some ''t0''\<rparr>,
      Map.empty(''default'' \<mapsto> \<lparr>items = [], last_updated = None, created_at = ''t0''\<rparr>)) \<and>
   get_cart_endpoint ex_carts (Some ''lane-7'') ''t9'' =
     (\<lparr>s_items = [], total_items = 0, unique_items = 0,
       s_last_updated = None, s_created_at = Some ''t9''\<rparr>,
      ex_carts(''lane-7'' \<mapsto> \<lparr>items = [], last_updated = None, created_at = ''t9''\<rparr>))"
proof -
  have a: "Map.empty (session_key None) = (None :: cart option)"
    by simp
  have b: "ex_carts (session_key (Some ''lane-7'')) = None"
    by (simp add: ex_carts_def session_key_def)
  from get_cart_unseen_session [of Map.empty None "''t0''", OF a]
    get_cart_unseen_session [of ex_carts "Some ''lane-7''" "''t9''", OF b]
  show ?thesis
    by (simp add: session_key_def)
qed

section \<open>Adding to the cart\<close>

lemma add_item_lines:
  assumes "add_item cm product session_id d = (item, cm')"
  shows "lines_of cm' session_id = lines_of cm session_id @ [item]"
    and "ci_product_id item = p_id product"
    and "ci_price item = p_price product"
    and "\<And>k. k \<noteq> session_key session_id \<Longrightarrow> cm' k = cm k"
  using assms
  by (auto simp: add_item_def get_cart_def lines_of_def Let_def split: option.splits)

lemma add_units_lines:
  assumes "add_units cm product session_id ds k n = (added, cm')"
  shows "length added = n \<and>
         lines_of cm' session_id = lines_of cm session_id @ added \<and>
         (\<forall>i \<in> set added. ci_product_id i = p_id product \<and> ci_price i = p_price product) \<and>
         (\<forall>s. s \<noteq> session_key session_id \<longrightarrow> cm' s = cm s)"
  using assms
proof (induction n arbitrary: cm k added cm')
  case 0
  then show ?case by simp
next
  case (Suc n)
  obtain item cm1 where one: "add_item cm product session_id (ds k) = (item, cm1)"
    by (cases "add_item cm product session_id (ds k)")
  obtain rest cm2 where more: "add_units cm1 product session_id ds (Suc k) n = (rest, cm2)"
    by (cases "add_units cm1 product session_id ds (Suc k) n")
  from Suc.prems one more have res: "added = item # rest" "cm' = cm2"
    by simp_all
  note ih = Suc.IH [OF more]
  note it = add_item_lines [OF one]
  show ?case
    using ih it by (simp add: res)
qed

lemma get_summary_lines:
  assumes "get_summary cm session_id now = (out, cm')"
  shows "lines_of cm' session_id = lines_of cm session_id"
    and "\<And>k. k \<noteq> session_key session_id \<Longrightarrow> cm' k = cm k"
    and "total_items out = length (lines_of cm session_id)"
  using assms
  by (auto simp: get_summary_def get_cart_def lines_of_def Let_def split: option.splits)

text \<open>
  C4. For a product that the lookup finds: when the requested quantity exceeds the
  product's stock, \<open>add_to_cart\<close> answers 400 with the insufficient-stock error, the stock
  available and the quantity requested, and the carts are exactly as before. Otherwise it
  succeeds, the lines it returns are \<open>quantity\<close> many (none for a quantity that is not
  positive), every one a line of that product, and the session's cart is the old cart with
  exactly these lines appended; the carts of other sessions are untouched.
\<close>

theorem add_to_cart_all_or_nothing:
  assumes "get_product_flexible lower db product_id = Some product"
  shows "(p_stock product < quantity \<longrightarrow>
            add_to_cart lower cm db product_id session_id quantity ds now =
              (JSONResponse 400
                 (StockContent (''Insufficient stock for '' @ p_name product)
                    (p_stock product) quantity), cm)) \<and>
         (quantity \<le> p_stock product \<longrightarrow>
            (\<exists>r cm'. add_to_cart lower cm db product_id session_id quantity ds now = (Payload r, cm') \<and>
               ar_success r \<and>
               length (ar_items_added r) = nat quantity \<and>
               (\<forall>i \<in> set (ar_items_added r). ci_product_id i = p_id product) \<and>
               lines_of cm' session_id = lines_of cm session_id @ ar_items_added r \<and>
               total_items (ar_cart_summary r) = length (lines_of cm' session_id) \<and>
               (\<forall>s. s \<noteq> session_key session_id \<longrightarrow> cm' s = cm s)))"
proof (intro conjI impI)
  assume "p_stock product < quantity"
  then show "add_to_cart lower cm db product_id session_id quantity ds now =
      (JSONResponse 400
         (StockContent (''Insufficient stock for '' @ p_name product)
            (p_stock product) quantity), cm)"
    using assms by (simp add: add_to_cart_def)
next
  assume enough: "quantity \<le> p_stock product"
  obtain added cm1 where units: "add_units cm product session_id ds 0 (nat quantity) = (added, cm1)"
    by (cases "add_units cm product session_id ds 0 (nat quantity)")
  obtain summ cm2 where summ: "get_summary cm1 session_id now = (summ, cm2)"
    by (cases "get_summary cm1 session_id now")
  let ?r = "\<lparr>ar_success = True,
             ar_message = ''Added '' @ string_of_int quantity @ ''x '' @ p_name product @ '' to cart'',
             ar_cart_summary = summ, ar_items_added = added\<rparr>"
  have res: "add_to_cart lower cm db product_id session_id quantity ds now = (Payload ?r, cm2)"
    using assms enough units summ by (simp add: add_to_cart_def)
  note u = add_units_lines [OF units]
  note g = get_summary_lines [OF summ]
  have "length added = nat quantity"
    and "\<forall>i \<in> set added. ci_product_id i = p_id product"
    and "lines_of cm2 session_id = lines_of cm session_id @ added"
    and "total_items summ = length (lines_of cm2 session_id)"
    and "\<forall>s. s \<noteq> session_key session_id \<longrightarrow> cm2 s = cm s"
    using u g by simp_all
  with res show "\<exists>r cm'. add_to_cart lower cm db product_id session_id quantity ds now = (Payload r, cm') \<and>
      ar_success r \<and> length (ar_items_added r) = nat quantity \<and>
      (\<forall>i \<in> set (ar_items_added r). ci_product_id i = p_id product) \<and>
      lines_of cm' session_id = lines_of cm session_id @ ar_items_added r \<and>
      total_items (ar_cart_summary r) = length (lines_of cm' session_id) \<and>
      (\<forall>s. s \<noteq> session_key session_id \<longrightarrow> cm' s = cm s)"
    by (intro exI [of _ ?r] exI [of _ cm2]) simp
qed

lemma ex_db_cola: "get_product_flexible ascii_lower ex_db ''cola-can'' = Some ex_cola"
  by (simp add: get_product_flexible_def get_product_def get_products_def ex_db_def ex_cola_def)

theorem add_to_cart_all_or_nothing_witness:
  "add_to_cart ascii_lower ex_carts ex_db ''cola-can'' None 9 ex_draws ''t3'' =
     (JSONResponse 400 (StockContent ''Insufficient stock for Cola'' 5 9), ex_carts) \<and>
   (\<exists>r cm'. add_to_cart ascii_lower ex_carts ex_db ''cola-can'' None 2 ex_draws ''t3'' = (Payload r, cm') \<and>
      length (ar_items_added r) = 2 \<and>
      lines_of cm' None = lines_of ex_carts None @ ar_items_added r)"
proof -
  have rejected: "p_stock ex_cola < 9" and accepted: "2 \<le> p_stock ex_cola"
    by (simp_all add: ex_cola_def)
  from add_to_cart_all_or_nothing [OF ex_db_cola, where quantity = 9 and cm = ex_carts
      and session_id = None and ds = ex_draws and now = "''t3''"] rejected
  have a: "add_to_cart ascii_lower ex_carts ex_db ''cola-can'' None 9 ex_draws ''t3'' =
     (JSONResponse 400 (StockContent ''Insufficient stock for Cola'' 5 9), ex_carts)"
    by (simp add: ex_cola_def)
  from add_to_cart_all_or_nothing [OF ex_db_cola, where quantity = 2 and cm = ex_carts
      and session_id = None and ds = ex_draws and now = "''t3''"] accepted
  have b: "\<exists>r cm'. add_to_cart ascii_lower ex_carts ex_db ''cola-can'' None 2 ex_draws ''t3'' = (Payload r, cm') \<and>
      length (ar_items_added r) = 2 \<and>
      lines_of cm' None = lines_of ex_carts None @ ar_items_added r"
    by auto
  from a b show ?thesis ..
qed

section \<open>Batch add\<close>

lemma batch_loop_outcome:
  assumes "batch_loop lower db session_id ds j batch results errors cm = (results', errors', cm')"
  shows "errors' = errors @ List.map_filter (item_error lower db) batch \<and>
         (\<exists>added. results' = results @ added \<and>
            length added = sum_list (map (lines_due lower db) batch) \<and>
            lines_of cm' session_id = lines_of cm session_id @ added) \<and>
         (\<forall>s. s \<noteq> session_key session_id \<longrightarrow> cm' s = cm s)"
  using assms
proof (induction batch arbitrary: j results errors cm)
  case Nil
  then show ?case by (simp add: List.map_filter_simps)
next
  case (Cons item rest)
  show ?case
  proof (cases "get_product_flexible lower db (bi_product_id item)")
    case None
    then have err: "item_error lower db item = Some (''Product '' @ bi_product_id item @ '' not found'')"
      by (simp add: item_error_def)
    from Cons.prems None
    have "batch_loop lower db session_id ds (Suc j) rest results
            (errors @ [''Product '' @ bi_product_id item @ '' not found'']) cm =
          (results', errors', cm')"
      by simp
    from Cons.IH [OF this] err show ?thesis
      by (simp add: List.map_filter_simps lines_due_def)
  next
    case (Some product)
    show ?thesis
    proof (cases "p_stock product < bi_quantity item")
      case True
      with Some have err: "item_error lower db item = Some (''Insufficient stock for '' @ p_name product)"
        by (simp add: item_error_def)
      from Cons.prems Some True
      have "batch_loop lower db session_id ds (Suc j) rest results
              (errors @ [''Insufficient stock for '' @ p_name product]) cm =
            (results', errors', cm')"
        by simp
      from Cons.IH [OF this] err show ?thesis
        by (simp add: List.map_filter_simps lines_due_def)
    next
      case False
      with Some have ok: "item_error lower db item = None"
        by (simp add: item_error_def)
      obtain added cm1 where
        units: "add_units cm product session_id (ds j) 0 (nat (bi_quantity item)) = (added, cm1)"
        by (cases "add_units cm product session_id (ds j) 0 (nat (bi_quantity item))")
      from Cons.prems Some False units
      have "batch_loop lower db session_id ds (Suc j) rest (results @ added) errors cm1 =
            (results', errors', cm')"
        by simp
      from Cons.IH [OF this] add_units_lines [OF units] ok show ?thesis
        by (auto simp: List.map_filter_simps lines_due_def)
    qed
  qed
qed

text \<open>
  C5. Batch add treats every item on its own. An item whose product is not found or whose
  quantity exceeds the stock contributes exactly one error string, in item order, and
  nothing else; every other item contributes its quantity of lines, whatever happened to
  the items around it. The response reports the number of lines added, the error strings,
  and \<open>success\<close> exactly when at least one line was added; the added lines are appended to
  the session's cart.
\<close>

theorem add_batch_is_best_effort:
  assumes "add_batch_to_cart lower cm db batch session_id ds now = (r, cm')"
  shows "br_errors r = List.map_filter (item_error lower db) batch \<and>
         br_items_added r = sum_list (map (lines_due lower db) batch) \<and>
         (br_success r \<longleftrightarrow> 0 < br_items_added r) \<and>
         (\<exists>added. length added = br_items_added r \<and>
            lines_of cm' session_id = lines_of cm session_id @ added)"
proof -
  obtain results errors cm1 where
    loop: "batch_loop lower db session_id ds 0 batch [] [] cm = (results, errors, cm1)"
    by (cases "batch_loop lower db session_id ds 0 batch [] [] cm") auto
  obtain summ cm2 where summ: "get_summary cm1 session_id now = (summ, cm2)"
    by (cases "get_summary cm1 session_id now")
  from assms loop summ have r: "r = \<lparr>br_success = (length results > 0),
      br_items_added = length results, br_errors = errors, br_cart_summary = summ\<rparr>"
    and cm': "cm' = cm2"
    by (simp_all add: add_batch_to_cart_def)
  from batch_loop_outcome [OF loop] get_summary_lines(1) [OF summ] show ?thesis
    by (auto simp: r cm')
qed

theorem add_batch_is_best_effort_witness:
  "add_batch_to_cart ascii_lower Map.empty ex_db ex_batch None (\<lambda>j. ex_draws) ''t3'' =
     (fst (add_batch_to_cart ascii_lower Map.empty ex_db ex_batch None (\<lambda>j. ex_draws) ''t3''),
      snd (add_batch_to_cart ascii_lower Map.empty ex_db ex_batch None (\<lambda>j. ex_draws) ''t3'')) \<and>
   br_errors (fst (add_batch_to_cart ascii_lower Map.empty ex_db ex_batch None (\<lambda>j. ex_draws) ''t3'')) =
     [''Insufficient stock for Chips''] \<and>
   br_items_added (fst (add_batch_to_cart ascii_lower Map.empty ex_db ex_batch None (\<lambda>j. ex_draws) ''t3'')) = 2 \<and>
   br_success (fst (add_batch_to_cart ascii_lower Map.empty ex_db ex_batch None (\<lambda>j. ex_draws) ''t3''))"
proof -
  have errs: "List.map_filter (item_error ascii_lower ex_db) ex_batch = [''Insufficient stock for Chips'']"
    by (simp add: List.map_filter_simps item_error_def ex_batch_def get_product_flexible_def
        get_product_def get_products_def ex_db_def ex_cola_def ex_chips_def ex_water_def
        variations_def replace_def ascii_lower_def ascii_lower_char_def)
  have due: "sum_list (map (lines_due ascii_lower ex_db) ex_batch) = 2"
    by (simp add: lines_due_def item_error_def ex_batch_def get_product_flexible_def
        get_product_def get_products_def ex_db_def ex_cola_def ex_chips_def ex_water_def
        variations_def replace_def ascii_lower_def ascii_lower_char_def)
  have h: "add_batch_to_cart ascii_lower Map.empty ex_db ex_batch None (\<lambda>j. ex_draws) ''t3'' =
     (fst (add_batch_to_cart ascii_lower Map.empty ex_db ex_batch None (\<lambda>j. ex_draws) ''t3''),
      snd (add_batch_to_cart ascii_lower Map.empty ex_db ex_batch None (\<lambda>j. ex_draws) ''t3''))"
    by simp
  from add_batch_is_best_effort [OF h] errs due show ?thesis
    by simp
qed

section \<open>Debouncer\<close>

text \<open>
  C7. Take a label with no accepted detection inside the cooldown window before \<open>t1\<close>, and
  a second call at \<open>t2\<close> less than the cooldown after \<open>t1\<close>. The two calls return true and
  false. The suppressed call changes nothing: the stored time stays \<open>t1\<close>, so a later call
  at \<open>t3\<close> is accepted as soon as the cooldown has passed since \<open>t1\<close>, however close
  \<open>t3\<close> is to the suppressed call. In general a call that returns false leaves the
  debouncer as it was.
\<close>

theorem debouncer_window_from_last_accepted:
  assumes "case last_detections self name of
             None \<Rightarrow> True
           | Some seen \<Rightarrow> debounce_time self \<le> t1 - seen"
    and "t2 - t1 < debounce_time self"
  shows "\<exists>s1. is_new_detection self name t1 = (True, s1) \<and>
              is_new_detection s1 name t2 = (False, s1) \<and>
              last_detections s1 name = Some t1 \<and>
              (\<forall>t3. debounce_time self \<le> t3 - t1 \<longrightarrow> fst (is_new_detection s1 name t3)) \<and>
              (\<forall>s n t. \<not> fst (is_new_detection s n t) \<longrightarrow> snd (is_new_detection s n t) = s)"
proof -
  let ?s1 = "self\<lparr>last_detections := (last_detections self)(name \<mapsto> t1)\<rparr>"
  have first: "is_new_detection self name t1 = (True, ?s1)"
    using assms(1) by (auto simp: is_new_detection_def split: option.splits)
  have second: "is_new_detection ?s1 name t2 = (False, ?s1)"
    using assms(2) by (simp add: is_new_detection_def)
  have later: "\<forall>t3. debounce_time self \<le> t3 - t1 \<longrightarrow> fst (is_new_detection ?s1 name t3)"
    by (simp add: is_new_detection_def)
  have quiet: "\<forall>s n t. \<not> fst (is_new_detection s n t) \<longrightarrow> snd (is_new_detection s n t) = s"
    by (auto simp: is_new_detection_def split: option.splits if_splits)
  from first second later quiet show ?thesis
    by (intro exI [of _ ?s1]) simp
qed

theorem debouncer_window_from_last_accepted_witness:
  "\<exists>s1. is_new_detection new_debouncer ''Pepsi'' 100 = (True, s1) \<and>
         is_new_detection s1 ''Pepsi'' (1002 / 10) = (False, s1) \<and>
         last_detections s1 ''Pepsi'' = Some 100 \<and>
         fst (is_new_detection s1 ''Pepsi'' 101)"
proof -
  have a: "case last_detections new_debouncer ''Pepsi'' of
             None \<Rightarrow> True
           | Some seen \<Rightarrow> debounce_time new_debouncer \<le> 100 - seen"
    by (simp add: new_debouncer_def)
  have b: "1002 / 10 - 100 < debounce_time new_debouncer"
    by (simp add: new_debouncer_def)
  from debouncer_window_from_last_accepted [OF a b] show ?thesis
    by (auto simp: new_debouncer_def)
qed

section \<open>Confirming a payment\<close>

lemma process_pending_success:
  assumes "pending_payments db payment_id = Some p" and "pay_status p = ''pending''"
  shows "\<exists>s db1. process_pending_payment db payment_id now_stamp now_iso = (Some s, db1) \<and>
           sale_subtotal s = pay_subtotal p \<and> sale_tax s = pay_tax p \<and>
           sale_total s = pay_total p \<and> sale_items s = pay_items p \<and>
           sale_payment_id s = payment_id \<and>
           sales db1 = sales db @ [s] \<and>
           products db1 = foldl decrement_first (products db) (pay_items p) \<and>
           pending_payments db1 = (pending_payments db)(payment_id \<mapsto> p\<lparr>pay_status := ''completed''\<rparr>)"
  using assms by (simp add: process_pending_payment_def get_products_def Let_def)

lemma confirm_payment_success:
  assumes "confirm_payment db payment_id now_stamp now_iso = (Payload s, db1)"
  shows "\<exists>p. pending_payments db payment_id = Some p \<and> pay_status p = ''pending'' \<and>
           pending_payments db1 payment_id = Some (p\<lparr>pay_status := ''completed''\<rparr>) \<and>
           sales db1 = sales db @ [s]"
  using assms
  by (auto simp: confirm_payment_def get_pending_payment_def process_pending_payment_def
      Let_def split: option.splits if_splits)

text \<open>
  C2. After a confirmation that succeeded, confirming the same payment id again is answered
  400 "Payment already processed", and the database is returned as it was: no stock
  changes, no sale is appended. A payment id that is not in the store is answered 404
  "Payment not found", a different response.
\<close>

theorem second_confirmation_rejected:
  assumes "confirm_payment db payment_id stamp1 iso1 = (Payload s, db1)"
  shows "confirm_payment db1 payment_id stamp2 iso2 =
           (JSONResponse 400 (ErrorContent ''Payment already processed''), db1) \<and>
         products (snd (confirm_payment db1 payment_id stamp2 iso2)) = products db1 \<and>
         sales (snd (confirm_payment db1 payment_id stamp2 iso2)) = sales db @ [s] \<and>
         (\<forall>other. get_pending_payment db1 other = None \<longrightarrow>
            confirm_payment db1 other stamp2 iso2 =
              (JSONResponse 404 (ErrorContent ''Payment not found''), db1)) \<and>
         (JSONResponse 400 (ErrorContent ''Payment already processed'') :: sale response) \<noteq>
           JSONResponse 404 (ErrorContent ''Payment not found'')"
proof -
  from confirm_payment_success [OF assms] obtain p where
    completed: "pending_payments db1 payment_id = Some (p\<lparr>pay_status := ''completed''\<rparr>)"
    and appended: "sales db1 = sales db @ [s]"
    by blast
  have again: "confirm_payment db1 payment_id stamp2 iso2 =
      (JSONResponse 400 (ErrorContent ''Payment already processed''), db1)"
    using completed by (simp add: confirm_payment_def get_pending_payment_def)
  have missing: "\<forall>other. get_pending_payment db1 other = None \<longrightarrow>
      confirm_payment db1 other stamp2 iso2 =
        (JSONResponse 404 (ErrorContent ''Payment not found''), db1)"
    by (simp add: confirm_payment_def)
  from again appended missing show ?thesis
    by simp
qed

theorem second_confirmation_rejected_witness:
  "fst (confirm_payment ex_db_pending ''pay-1'' ''s1'' ''i1'') =
     Payload (the (fst (process_pending_payment ex_db_pending ''pay-1'' ''s1'' ''i1''))) \<and>
   confirm_payment (snd (confirm_payment ex_db_pending ''pay-1'' ''s1'' ''i1'')) ''pay-1'' ''s2'' ''i2'' =
     (JSONResponse 400 (ErrorContent ''Payment already processed''),
      snd (confirm_payment ex_db_pending ''pay-1'' ''s1'' ''i1''))"
proof -
  have h: "confirm_payment ex_db_pending ''pay-1'' ''s1'' ''i1'' =
      (Payload (the (fst (process_pending_payment ex_db_pending ''pay-1'' ''s1'' ''i1''))),
       snd (confirm_payment ex_db_pending ''pay-1'' ''s1'' ''i1''))"
    by (simp add: confirm_payment_def get_pending_payment_def process_pending_payment_def
        ex_db_pending_def add_pending_payment_def ex_payment_def Let_def)
  have a: "fst (confirm_payment ex_db_pending ''pay-1'' ''s1'' ''i1'') =
      Payload (the (fst (process_pending_payment ex_db_pending ''pay-1'' ''s1'' ''i1'')))"
    by (subst h) simp
  have b: "confirm_payment (snd (confirm_payment ex_db_pending ''pay-1'' ''s1'' ''i1''))
      ''pay-1'' ''s2'' ''i2'' =
     (JSONResponse 400 (ErrorContent ''Payment already processed''),
      snd (confirm_payment ex_db_pending ''pay-1'' ''s1'' ''i1''))"
    by (rule conjunct1 [OF second_confirmation_rejected [OF h]])
  from a b show ?thesis ..
qed

section \<open>Checkout and confirmation\<close>

lemma p_id_decrement_if_enough: "p_id (decrement_if_enough quantity p) = p_id p"
  by (simp add: decrement_if_enough_def)

lemma decrement_first_Cons:
  "decrement_first (p # ps) item =
     (if p_id p = pi_product_id item then decrement_if_enough (pi_quantity item) p # ps
      else p # decrement_first ps item)"
  by (simp add: decrement_if_enough_def)

lemma find_decrement_first:
  "find (\<lambda>p. p_id p = k) (decrement_first ps item) =
     (if k = pi_product_id item
      then map_option (decrement_if_enough (pi_quantity item)) (find (\<lambda>p. p_id p = k) ps)
      else find (\<lambda>p. p_id p = k) ps)"
  by (induction ps)
    (auto simp: decrement_first_Cons p_id_decrement_if_enough simp del: decrement_first.simps(2))

lemma head_id_not_in_rest:
  "distinct (map pi_product_id (item # rest)) \<Longrightarrow> pi_product_id item = k \<Longrightarrow>
   \<nexists>x. x \<in> set rest \<and> pi_product_id x = k"
  by (auto simp: image_iff)

lemma find_foldl_decrement_first:
  assumes "distinct (map pi_product_id lines)"
  shows "find (\<lambda>p. p_id p = k) (foldl decrement_first ps lines) =
     (case find (\<lambda>item. pi_product_id item = k) lines of
        None \<Rightarrow> find (\<lambda>p. p_id p = k) ps
      | Some item \<Rightarrow>
          map_option (decrement_if_enough (pi_quantity item)) (find (\<lambda>p. p_id p = k) ps))"
  using assms
proof (induction lines arbitrary: ps)
  case Nil
  show ?case by simp
next
  case (Cons item rest)
  then have ih: "find (\<lambda>p. p_id p = k) (foldl decrement_first (decrement_first ps item) rest) =
     (case find (\<lambda>item. pi_product_id item = k) rest of
        None \<Rightarrow> find (\<lambda>p. p_id p = k) (decrement_first ps item)
      | Some item' \<Rightarrow>
          map_option (decrement_if_enough (pi_quantity item'))
            (find (\<lambda>p. p_id p = k) (decrement_first ps item)))"
    by simp
  show ?case
  proof (cases "k = pi_product_id item")
    case True
    have "find (\<lambda>item. pi_product_id item = k) rest = None"
      unfolding find_None_iff using Cons.prems True [symmetric] by (rule head_id_not_in_rest)
    with True ih show ?thesis
      by (simp add: find_decrement_first)
  next
    case False
    with ih show ?thesis
      by (simp add: find_decrement_first split: option.splits)
  qed
qed

lemma get_summary_distinct:
  assumes "get_summary cm session_id now = (summ, cm1)"
  shows "distinct (map se_product_id (s_items summ))"
proof -
  obtain c :: cart where "s_items summ = map snd (group_items (items c))"
    using assms by (auto simp: get_summary_def Let_def split: prod.splits)
  then have "map se_product_id (s_items summ) = map fst (group_items (items c))"
    by (simp only: group_items_ids)
  then show ?thesis
    by (simp only: group_items_keys_distinct)
qed

lemma find_payment_line:
  "e \<in> set es \<Longrightarrow> distinct (map se_product_id es) \<Longrightarrow>
   find (\<lambda>item. pi_product_id item = se_product_id e) (map payment_line es) = Some (payment_line e)"
  by (induction es) (auto simp: payment_line_def)

lemma checkout_cart_pending:
  assumes "get_summary cm session_id (cd_now_summary d) = (summ, cm1)"
    and "total_items summ \<noteq> 0"
  shows "\<exists>pay cm2.
           checkout_cart cm db session_id d =
             (Payload pay, cm2, add_pending_payment db (cd_payment_id d) pay) \<and>
           pay_payment_id pay = cd_payment_id d \<and>
           pay_items pay = map payment_line (s_items summ) \<and>
           pay_subtotal pay = subtotal_of (s_items summ) \<and>
           pay_tax pay = pay_subtotal pay * effective_tax_rate db \<and>
           pay_total pay = pay_subtotal pay + pay_tax pay \<and>
           pay_status pay = ''pending'' \<and>
           lines_of cm2 session_id = []"
  using assms
  by (simp add: checkout_cart_def Let_def effective_tax_rate_def default_tax_rate_def
      clear_cart_def get_cart_def lines_of_def split: option.splits prod.splits)

lemma payment_line_ids: "map pi_product_id (map payment_line es) = map se_product_id es"
  by (simp add: payment_line_def)

lemma stock_after_lines:
  assumes "e \<in> set es" and "distinct (map se_product_id es)"
    and "products db2 = foldl decrement_first (products db) (map payment_line es)"
    and "get_product db (se_product_id e) = Some p"
  shows "stock_of db2 (se_product_id e) =
           Some (if se_quantity e \<le> p_stock p then p_stock p - se_quantity e else p_stock p)"
proof -
  have d: "distinct (map pi_product_id (map payment_line es))"
    using assms(2) by (simp only: payment_line_ids)
  have "get_product db2 (se_product_id e) =
          map_option (decrement_if_enough (pi_quantity (payment_line e)))
            (get_product db (se_product_id e))"
    unfolding get_product_def get_products_def assms(3)
    by (simp add: find_foldl_decrement_first [OF d] find_payment_line [OF assms(1,2)])
  then show ?thesis
    using assms(4) by (simp add: stock_of_def payment_line_def decrement_if_enough_def)
qed

text \<open>
  C1, amended. Checkout of a non-empty cart stores and returns a pending payment whose
  subtotal is the sum of price times quantity over the summary items, whose tax is the
  subtotal times the tax rate (the setting, 0.07 when it is absent), whose total is
  subtotal plus tax, and whose status is "pending"; the cart is emptied. Confirming that
  payment succeeds and appends exactly one sale, with the payment's subtotal, tax and
  total. For every summary item whose product is in the catalog, the stock of that product
  goes down by the item's quantity when the stock is at least the quantity, and stays as
  it is otherwise.
\<close>

theorem checkout_confirm_round_trip:
  assumes "get_summary cm session_id (cd_now_summary d) = (summ, cm1)"
    and "total_items summ \<noteq> 0"
  shows "\<exists>pay cm2 db1 s db2.
           checkout_cart cm db session_id d = (Payload pay, cm2, db1) \<and>
           pay_subtotal pay =
             sum_list (map (\<lambda>item. se_price item * of_int (se_quantity item)) (s_items summ)) \<and>
           pay_tax pay = pay_subtotal pay * effective_tax_rate db \<and>
           (tax_rate (get_settings db) = None \<longrightarrow> effective_tax_rate db = 7 / 100) \<and>
           pay_total pay = pay_subtotal pay + pay_tax pay \<and>
           pay_status pay = ''pending'' \<and>
           lines_of cm2 session_id = [] \<and>
           confirm_payment db1 (pay_payment_id pay) now_stamp now_iso = (Payload s, db2) \<and>
           sales db2 = sales db @ [s] \<and>
           sale_subtotal s = pay_subtotal pay \<and>
           sale_tax s = pay_tax pay \<and>
           sale_total s = pay_total pay \<and>
           (\<forall>e \<in> set (s_items summ). \<forall>p.
              get_product db (se_product_id e) = Some p \<longrightarrow>
              stock_of db2 (se_product_id e) =
                Some (if se_quantity e \<le> p_stock p then p_stock p - se_quantity e
                      else p_stock p))"
proof -
  from checkout_cart_pending [OF assms, of db] obtain pay cm2 where
    co: "checkout_cart cm db session_id d =
           (Payload pay, cm2, add_pending_payment db (cd_payment_id d) pay)"
    and pid: "pay_payment_id pay = cd_payment_id d"
    and lines: "pay_items pay = map payment_line (s_items summ)"
    and sub: "pay_subtotal pay = subtotal_of (s_items summ)"
    and tax: "pay_tax pay = pay_subtotal pay * effective_tax_rate db"
    and tot: "pay_total pay = pay_subtotal pay + pay_tax pay"
    and st: "pay_status pay = ''pending''"
    and cleared: "lines_of cm2 session_id = []"
    by blast
  let ?db1 = "add_pending_payment db (cd_payment_id d) pay"
  have stored: "pending_payments ?db1 (cd_payment_id d) = Some pay"
    by (simp add: add_pending_payment_def)
  from process_pending_success [OF stored st, of now_stamp now_iso] obtain s db2 where
    pr: "process_pending_payment ?db1 (cd_payment_id d) now_stamp now_iso = (Some s, db2)"
    and money: "sale_subtotal s = pay_subtotal pay" "sale_tax s = pay_tax pay"
      "sale_total s = pay_total pay"
    and sold: "sales db2 = sales ?db1 @ [s]"
    and prods: "products db2 = foldl decrement_first (products ?db1) (pay_items pay)"
    by blast
  have conf: "confirm_payment ?db1 (pay_payment_id pay) now_stamp now_iso = (Payload s, db2)"
    using stored st pr by (simp add: confirm_payment_def get_pending_payment_def pid)
  have sold': "sales db2 = sales db @ [s]"
    using sold by (simp add: add_pending_payment_def)
  have prods': "products db2 = foldl decrement_first (products db) (map payment_line (s_items summ))"
    using prods lines by (simp add: add_pending_payment_def)
  have rate: "tax_rate (get_settings db) = None \<longrightarrow> effective_tax_rate db = 7 / 100"
    by (simp add: effective_tax_rate_def default_tax_rate_def)
  have stock: "\<forall>e \<in> set (s_items summ). \<forall>p.
      get_product db (se_product_id e) = Some p \<longrightarrow>
      stock_of db2 (se_product_id e) =
        Some (if se_quantity e \<le> p_stock p then p_stock p - se_quantity e else p_stock p)"
    using stock_after_lines [OF _ get_summary_distinct [OF assms(1)] prods'] by blast
  have sub': "pay_subtotal pay =
      sum_list (map (\<lambda>item. se_price item * of_int (se_quantity item)) (s_items summ))"
    using sub by (simp add: subtotal_of_def)
  show ?thesis
    apply (rule exI [of _ pay], rule exI [of _ cm2], rule exI [of _ ?db1])
    apply (rule exI [of _ s], rule exI [of _ db2])
    apply (intro conjI)
    apply (rule co, rule sub', rule tax, rule rate, rule tot, rule st, rule cleared)
    apply (rule conf, rule sold', rule money(1), rule money(2), rule money(3), rule stock)
    done
qed

theorem checkout_confirm_round_trip_witness:
  "\<exists>pay cm2 db1 s db2.
     checkout_cart ex_carts ex_db None ex_checkout_draws = (Payload pay, cm2, db1) \<and>
     pay_subtotal pay = 35 \<and> pay_tax pay = 245 / 100 \<and> pay_total pay = 3745 / 100 \<and>
     pay_status pay = ''pending'' \<and>
     confirm_payment db1 (pay_payment_id pay) ''s1'' ''i1'' = (Payload s, db2) \<and>
     sales db2 = [s] \<and> sale_total s = 3745 / 100 \<and>
     stock_of db2 ''cola-can'' = Some 3 \<and> stock_of db2 ''crystal-water'' = Some 2"
proof -
  have h: "get_summary ex_carts None (cd_now_summary ex_checkout_draws) = (ex_summary, ex_carts)"
    by (simp add: get_summary_def get_cart_def session_key_def default_session_def
        ex_carts_def ex_cart_def ex_line_def ex_cola_def ex_water_def group_items_def
        group_step_def Let_def ex_summary_def)
  have n: "total_items ex_summary \<noteq> 0"
    by (simp add: ex_summary_def)
  have cola: "get_product ex_db ''cola-can'' = Some ex_cola"
    and water: "get_product ex_db ''crystal-water'' = Some ex_water"
    by (simp_all add: get_product_def get_products_def ex_db_def ex_cola_def ex_chips_def
        ex_water_def)
  from checkout_confirm_round_trip [OF h n, of ex_db "''s1''" "''i1''"]
  obtain pay cm2 db1 s db2 where
    r: "checkout_cart ex_carts ex_db None ex_checkout_draws = (Payload pay, cm2, db1)"
      "pay_subtotal pay =
         sum_list (map (\<lambda>item. se_price item * of_int (se_quantity item)) (s_items ex_summary))"
      "pay_tax pay = pay_subtotal pay * effective_tax_rate ex_db"
      "pay_total pay = pay_subtotal pay + pay_tax pay"
      "pay_status pay = ''pending''"
      "confirm_payment db1 (pay_payment_id pay) ''s1'' ''i1'' = (Payload s, db2)"
      "sales db2 = sales ex_db @ [s]"
      "sale_total s = pay_total pay"
    and stock: "\<forall>e \<in> set (s_items ex_summary). \<forall>p.
              get_product ex_db (se_product_id e) = Some p \<longrightarrow>
              stock_of db2 (se_product_id e) =
                Some (if se_quantity e \<le> p_stock p then p_stock p - se_quantity e
                      else p_stock p)"
    by blast
  have rate: "effective_tax_rate ex_db = 7 / 100"
    by (simp add: effective_tax_rate_def default_tax_rate_def get_settings_def ex_db_def)
  have sub: "pay_subtotal pay = 35"
    using r(2) by (simp add: ex_summary_def)
  have s1: "stock_of db2 ''cola-can'' = Some 3"
    using stock cola by (simp add: ex_summary_def ex_cola_def)
  have s2: "stock_of db2 ''crystal-water'' = Some 2"
    using stock water by (simp add: ex_summary_def ex_water_def)
  show ?thesis
    apply (rule exI [of _ pay], rule exI [of _ cm2], rule exI [of _ db1])
    apply (rule exI [of _ s], rule exI [of _ db2])
    using r sub rate s1 s2 by (simp add: ex_db_def)
qed

text \<open>
  The claim as first stated, that confirmation always takes the quantity off the stock,
  fails: with one unit of cola in stock, two requests for one unit each both pass the
  stock check, checkout makes a payment for two units, and the confirmation succeeds and
  leaves the stock at one.
\<close>

theorem confirm_decrements_by_quantity_counterexample:
  "stock_of ex_db_low ''cola-can'' = Some 1 \<and>
   ordered_quantities (fst ex_low_checkout) = [2] \<and>
   is_payload (fst ex_low_confirm) \<and>
   stock_of (snd ex_low_confirm) ''cola-can'' = Some 1 \<and>
   stock_of (snd ex_low_confirm) ''cola-can'' \<noteq> Some (1 - 2)"
  by code_simp

section \<open>The stock ledger\<close>

lemma update_stock_loop_nonneg:
  assumes "update_stock_loop ps product_id quantity operation = Some ps'"
    and "list_all (\<lambda>p. 0 \<le> p_stock p) ps"
    and "operation = ''add'' \<longrightarrow> 0 \<le> quantity"
  shows "list_all (\<lambda>p. 0 \<le> p_stock p) ps'"
  using assms
proof (induction ps arbitrary: ps')
  case Nil
  then show ?case by simp
next
  case (Cons p ps)
  show ?case
  proof (cases "p_id p = product_id")
    case True
    with Cons.prems show ?thesis
      by (auto split: if_splits)
  next
    case False
    with Cons.prems obtain qs where
      "update_stock_loop ps product_id quantity operation = Some qs" and "ps' = p # qs"
      by auto
    with Cons.IH [of qs] Cons.prems show ?thesis
      by simp
  qed
qed

lemma update_stock_nonneg:
  assumes "stock_nonneg db" and "operation = ''add'' \<longrightarrow> 0 \<le> quantity"
  shows "stock_nonneg (snd (update_stock db product_id quantity operation))"
proof (cases "update_stock_loop (get_products db) product_id quantity operation")
  case None
  with assms(1) show ?thesis
    by (simp add: update_stock_def)
next
  case (Some ps')
  from update_stock_loop_nonneg [OF Some _ assms(2)] assms(1)
  have "list_all (\<lambda>p. 0 \<le> p_stock p) ps'"
    by (simp add: stock_nonneg_def get_products_def)
  with Some show ?thesis
    by (simp add: update_stock_def stock_nonneg_def)
qed

lemma decrement_first_nonneg:
  "list_all (\<lambda>p. 0 \<le> p_stock p) ps \<Longrightarrow>
   list_all (\<lambda>p. 0 \<le> p_stock p) (decrement_first ps item)"
  by (induction ps) auto

lemma foldl_decrement_first_nonneg:
  "list_all (\<lambda>p. 0 \<le> p_stock p) ps \<Longrightarrow>
   list_all (\<lambda>p. 0 \<le> p_stock p) (foldl decrement_first ps lines)"
  by (induction lines arbitrary: ps) (simp_all add: decrement_first_nonneg)

lemma process_pending_payment_nonneg:
  "stock_nonneg db \<Longrightarrow>
   stock_nonneg (snd (process_pending_payment db payment_id now_stamp now_iso))"
  by (auto simp: process_pending_payment_def stock_nonneg_def get_products_def Let_def
      foldl_decrement_first_nonneg split: option.splits)

lemma confirm_payment_nonneg:
  "stock_nonneg db \<Longrightarrow> stock_nonneg (snd (confirm_payment db payment_id now_stamp now_iso))"
  using process_pending_payment_nonneg [of db payment_id now_stamp now_iso]
  by (auto simp: confirm_payment_def split: option.splits prod.splits)

lemma checkout_cart_products:
  "products (snd (snd (checkout_cart cm db session_id d))) = products db"
  by (simp add: checkout_cart_def add_pending_payment_def Let_def split: prod.splits)

lemma restock_product_db:
  "snd (restock_product db product_id quantity) = snd (update_stock db product_id quantity ''add'')"
  by (simp add: restock_product_def split: prod.splits)

lemma step_nonneg:
  assumes "stock_nonneg (snd st)" and "restock_nonneg op"
  shows "stock_nonneg (snd (step lower st op))"
proof (cases st)
  case (Pair cm db)
  show ?thesis
  proof (cases op)
    case (OpAddToCart product_id session_id quantity ds now)
    with Pair assms show ?thesis by simp
  next
    case (OpCheckout session_id d)
    with Pair assms checkout_cart_products [of cm db session_id d] show ?thesis
      by (simp add: stock_nonneg_def)
  next
    case (OpConfirm payment_id now_stamp now_iso)
    with Pair assms show ?thesis by (simp add: confirm_payment_nonneg)
  next
    case (OpRestock product_id quantity)
    with Pair assms update_stock_nonneg [of db "''add''" quantity product_id] show ?thesis
      by (simp add: restock_product_db)
  next
    case (OpSubtract product_id quantity)
    with Pair assms update_stock_nonneg [of db "''subtract''" quantity product_id] show ?thesis
      by simp
  qed
qed

text \<open>Where the non-negative stock does hold: along every run of add-to-cart, checkout,
  confirmation, restock and subtract requests in which no restock carries a negative
  quantity. Confirmation and subtraction never take more than there is.\<close>

lemma stock_nonneg_run:
  assumes "stock_nonneg (snd st)" and "list_all restock_nonneg ops"
  shows "stock_nonneg (snd (run lower st ops))"
  using assms unfolding run_def
  by (induction ops arbitrary: st) (simp_all add: step_nonneg)

text \<open>
  C3. The stock does not stay non-negative along every run. The restock request hands its
  quantity to \<open>update_stock\<close> with operation "add", which adds it without looking at its
  sign, while the "subtract" branch next to it and the confirmation both refuse to go
  below zero. Restocking the cola of the example catalog (stock 5) by -10 is answered as a
  success and leaves the stock at -5.
\<close>

theorem restock_negative_quantity_breaks_stock:
  "stock_nonneg ex_db \<and>
   stock_of ex_db ''cola-can'' = Some 5 \<and>
   fst (restock_product ex_db ''cola-can'' (- 10)) = Payload ''Product restocked successfully'' \<and>
   stock_of (snd (restock_product ex_db ''cola-can'' (- 10))) ''cola-can'' = Some (- 5) \<and>
   \<not> stock_nonneg (snd (run ascii_lower (Map.empty, ex_db) [OpRestock ''cola-can'' (- 10)]))"
  by code_simp

section \<open>Overlap suppression\<close>

lemma is_duplicate_iff: "is_duplicate t d sel \<longleftrightarrow> (\<exists>s \<in> set sel. overlaps_same_label t d s)"
  by (induction sel) (auto simp: overlaps_same_label_def)

lemma calculate_iou_sym: "calculate_iou b1 b2 = calculate_iou b2 b1"
  by (cases b1; cases b2) (simp add: calculate_iou_def Let_def max.commute min.commute add.commute)

lemma greedy_snoc: "greedy t (xs @ [x]) = filter_step t (greedy t xs) x"
  by (simp add: greedy_def)

lemma greedy_subseq: "subseq (greedy t xs) xs"
proof (induction xs rule: rev_induct)
  case Nil show ?case by (simp add: greedy_def)
next
  case (snoc x xs)
  then show ?case
    by (auto simp: greedy_snoc filter_step_def intro: subseq_rev_drop_many)
qed

lemma greedy_set: "set (greedy t xs) \<subseteq> set xs"
proof (induction xs rule: rev_induct)
  case Nil show ?case by (simp add: greedy_def)
next
  case (snoc x xs)
  then show ?case
    by (auto simp: greedy_snoc filter_step_def)
qed

lemma greedy_no_dups: "sorted_wrt (\<lambda>a b. \<not> overlaps_same_label t b a) (greedy t xs)"
proof (induction xs rule: rev_induct)
  case Nil show ?case by (simp add: greedy_def)
next
  case (snoc x xs)
  then show ?case
    by (auto simp: greedy_snoc filter_step_def sorted_wrt_append is_duplicate_iff)
qed

lemma greedy_dropped:
  assumes "sorted_wrt (\<lambda>a b. confidence b \<le> confidence a) xs" and "d \<in> set xs" and "d \<notin> set (greedy t xs)"
  shows "\<exists>s \<in> set (greedy t xs). overlaps_same_label t d s \<and> confidence d \<le> confidence s"
  using assms
proof (induction xs rule: rev_induct)
  case Nil then show ?case by simp
next
  case (snoc x xs)
  have srt: "sorted_wrt (\<lambda>a b. confidence b \<le> confidence a) xs"
    and le: "\<forall>y \<in> set xs. confidence x \<le> confidence y"
    using snoc.prems(1) by (auto simp: sorted_wrt_append)
  show ?case
  proof (cases "is_duplicate t x (greedy t xs)")
    case True
    then have g: "greedy t (xs @ [x]) = greedy t xs"
      by (simp add: greedy_snoc filter_step_def)
    show ?thesis
    proof (cases "d \<in> set xs")
      case True
      with snoc.IH [OF srt] snoc.prems g show ?thesis by simp
    next
      case False
      with snoc.prems have "d = x" by simp
      with \<open>is_duplicate t x (greedy t xs)\<close> obtain s where "s \<in> set (greedy t xs)" "overlaps_same_label t d s"
        by (auto simp: is_duplicate_iff)
      moreover have "s \<in> set xs" using calculation greedy_set by blast
      ultimately show ?thesis using le \<open>d = x\<close> g by auto
    qed
  next
    case False
    then have g: "greedy t (xs @ [x]) = greedy t xs @ [x]"
      by (simp add: greedy_snoc filter_step_def)
    with snoc.prems have "d \<in> set xs" "d \<notin> set (greedy t xs)" by auto
    with snoc.IH [OF srt] g show ?thesis by auto
  qed
qed

lemma greedy_all_kept:
  "distinct (map class_name xs) \<Longrightarrow> greedy t xs = xs"
proof (induction xs rule: rev_induct)
  case Nil show ?case by (simp add: greedy_def)
next
  case (snoc x xs)
  then have "greedy t xs = xs" and "class_name x \<notin> class_name ` set xs" by auto
  then show ?case
    by (auto simp: greedy_snoc filter_step_def is_duplicate_iff overlaps_same_label_def)
qed

lemma sort_desc: "sorted_wrt (\<lambda>a b. confidence b \<le> confidence a) (sort_by_confidence xs)"
proof -
  have "sorted (map (\<lambda>x. - confidence x) (sort_by_confidence xs))"
    unfolding sort_by_confidence_def by (rule sorted_sort_key)
  then show ?thesis by (simp add: sorted_map)
qed

lemma filter_greedy: "filter_overlapping_detections xs t = greedy t (sort_by_confidence xs)"
  by (simp add: filter_overlapping_detections_def greedy_def sort_by_confidence_def)

lemma overlaps_same_label_sym: "overlaps_same_label t a b \<longleftrightarrow> overlaps_same_label t b a"
  using calculate_iou_sym [of "bbox a" "bbox b"] by (auto simp: overlaps_same_label_def)

lemma greedy_keeps_order:
  "sorted_wrt (\<lambda>a b. confidence b \<le> confidence a) xs \<Longrightarrow>
   sorted_wrt (\<lambda>a b. confidence b \<le> confidence a) (greedy t xs)"
proof (induction xs rule: rev_induct)
  case Nil
  show ?case by (simp add: greedy_def)
next
  case (snoc x xs)
  then show ?case
    using greedy_set [of t xs]
    by (auto simp: greedy_snoc filter_step_def sorted_wrt_append)
qed

lemma sorted_wrt_either:
  "sorted_wrt P xs \<Longrightarrow> a \<in> set xs \<Longrightarrow> b \<in> set xs \<Longrightarrow> a \<noteq> b \<Longrightarrow> P a b \<or> P b a"
  by (induction xs) auto

lemma greedy_pair:
  assumes "overlaps_same_label t a b"
  shows "greedy t [a, b] = [a]"
  using assms overlaps_same_label_sym [of t a b]
  by (simp add: greedy_def filter_step_def is_duplicate_iff)

lemma sort_pair:
  assumes "confidence b < confidence a"
  shows "sort_by_confidence [a, b] = [a, b]" and "sort_by_confidence [b, a] = [a, b]"
  using assms by (simp_all add: sort_by_confidence_def)

text \<open>
  C6, amended. Candidates are taken in order of descending confidence (stably), and a
  candidate is dropped exactly when a detection accepted before it has the same label and
  an IoU with it above the threshold. So the kept detections are a subsequence of the
  sorted candidates; no two kept detections have the same label and an IoU above the
  threshold; every dropped detection has a kept detection of the same label, of at least
  its confidence, overlapping it above the threshold, so that a detection with a different
  label never causes a drop; a frame whose labels are all different is kept whole; and in a
  frame of just two detections with the same label and IoU above the threshold exactly the
  higher-confidence one is kept.
\<close>

theorem overlap_suppression_is_greedy:
  assumes "out = filter_overlapping_detections dets t"
  shows "subseq out (sort_by_confidence dets) \<and>
         sorted_wrt (\<lambda>a b. confidence b \<le> confidence a) out \<and>
         (\<forall>a \<in> set out. \<forall>b \<in> set out. a \<noteq> b \<longrightarrow> \<not> overlaps_same_label t a b) \<and>
         (\<forall>d \<in> set dets. d \<notin> set out \<longrightarrow>
            (\<exists>s \<in> set out. overlaps_same_label t d s \<and> confidence d \<le> confidence s)) \<and>
         (distinct (map class_name dets) \<longrightarrow> out = sort_by_confidence dets) \<and>
         (\<forall>a b. (dets = [a, b] \<or> dets = [b, a]) \<and> overlaps_same_label t a b \<and>
                confidence b < confidence a \<longrightarrow> out = [a])"
proof -
  let ?xs = "sort_by_confidence dets"
  have out: "out = greedy t ?xs"
    using assms by (simp add: filter_greedy)
  have order: "subseq out ?xs"
    unfolding out by (rule greedy_subseq)
  have desc: "sorted_wrt (\<lambda>a b. confidence b \<le> confidence a) out"
    unfolding out by (rule greedy_keeps_order [OF sort_desc])
  have apart: "\<forall>a \<in> set out. \<forall>b \<in> set out. a \<noteq> b \<longrightarrow> \<not> overlaps_same_label t a b"
    using sorted_wrt_either [OF greedy_no_dups [of t ?xs]] overlaps_same_label_sym
    unfolding out by blast
  have dropped: "\<forall>d \<in> set dets. d \<notin> set out \<longrightarrow>
      (\<exists>s \<in> set out. overlaps_same_label t d s \<and> confidence d \<le> confidence s)"
    using greedy_dropped [OF sort_desc, of _ dets t]
    unfolding out by (simp add: sort_by_confidence_def)
  have whole: "distinct (map class_name dets) \<longrightarrow> out = ?xs"
  proof
    assume "distinct (map class_name dets)"
    then have "distinct (map class_name ?xs)"
      by (simp add: distinct_map sort_by_confidence_def)
    then show "out = ?xs"
      unfolding out by (rule greedy_all_kept)
  qed
  have pair: "\<forall>a b. (dets = [a, b] \<or> dets = [b, a]) \<and> overlaps_same_label t a b \<and>
      confidence b < confidence a \<longrightarrow> out = [a]"
    using sort_pair greedy_pair unfolding out by metis
  from order desc apart dropped whole pair show ?thesis
    by (intro conjI)
qed

theorem overlap_suppression_is_greedy_witness:
  "filter_overlapping_detections [ex_B, ex_A] default_iou_threshold = [ex_A] \<and>
   filter_overlapping_detections [ex_D, ex_B] default_iou_threshold = [ex_B, ex_D]"
proof -
  have ab: "overlaps_same_label default_iou_threshold ex_A ex_B"
    and conf: "confidence ex_B < confidence ex_A"
    by (simp_all add: overlaps_same_label_def default_iou_threshold_def calculate_iou_def
        ex_A_def ex_B_def Let_def)
  have labels: "distinct (map class_name [ex_D, ex_B])"
    by (simp add: ex_D_def ex_B_def)
  have sorted: "sort_by_confidence [ex_D, ex_B] = [ex_B, ex_D]"
    by (simp add: sort_by_confidence_def ex_D_def ex_B_def)
  from overlap_suppression_is_greedy [OF refl, of "[ex_B, ex_A]" default_iou_threshold] ab conf
  have one: "filter_overlapping_detections [ex_B, ex_A] default_iou_threshold = [ex_A]"
    by blast
  from overlap_suppression_is_greedy [OF refl, of "[ex_D, ex_B]" default_iou_threshold] labels
  have two: "filter_overlapping_detections [ex_D, ex_B] default_iou_threshold =
      sort_by_confidence [ex_D, ex_B]"
    by blast
  from one two sorted show ?thesis
    by simp
qed

text \<open>
  The claim as first stated fails for pairs inside a larger frame. Of the three boxes of
  one label, the second is dropped for the first, and the third is then kept although it
  overlaps the second, which has the higher confidence, by more than the threshold. The
  second box and the box of another label on top of it are not both kept either.
\<close>

theorem overlap_pair_counterexample:
  "filter_overlapping_detections [ex_A, ex_B, ex_C, ex_D] default_iou_threshold =
     [ex_A, ex_C, ex_D] \<and>
   class_name ex_B = class_name ex_C \<and>
   default_iou_threshold < calculate_iou (bbox ex_B) (bbox ex_C) \<and>
   confidence ex_C < confidence ex_B \<and>
   class_name ex_B \<noteq> class_name ex_D"
  by (simp add: filter_overlapping_detections_def sort_by_confidence_def filter_step_def
      default_iou_threshold_def calculate_iou_def ex_A_def ex_B_def ex_C_def ex_D_def Let_def)

section \<open>Catalog resolution\<close>

lemma first_variant_find:
  "first_variant db vs =
     (case find (\<lambda>v. get_product db v \<noteq> None) vs of
        None \<Rightarrow> None
      | Some v \<Rightarrow> get_product db v)"
  by (induction vs) (auto split: option.splits)

lemma get_product_Some:
  "get_product db k = Some p \<Longrightarrow> p \<in> set (get_products db) \<and> p_id p = k"
  by (auto simp: get_product_def find_Some_iff)

lemma first_variant_Some:
  "first_variant db vs = Some p \<Longrightarrow> p \<in> set (get_products db) \<and> p_id p \<in> set vs"
  by (induction vs) (auto split: option.splits dest: get_product_Some)

lemma get_product_flexible_in_catalog:
  "get_product_flexible lower db k = Some p \<Longrightarrow> p \<in> set (get_products db)"
  by (auto simp: get_product_flexible_def find_Some_iff
      split: option.splits dest: get_product_Some first_variant_Some)

lemma replace_by_char: "replace old [new] s = map (\<lambda>c. if c = old then new else c) s"
  by (induction s) (simp_all add: replace_def)

lemma replace_by_nothing: "replace old [] s = filter (\<lambda>c. c \<noteq> old) s"
  by (induction s) (simp_all add: replace_def)

lemma strip_separators_filter:
  "strip_separators s = filter (\<lambda>c. c \<noteq> CHR ''-'' \<and> c \<noteq> CHR ''_'') s"
  by (auto simp: strip_separators_def replace_by_nothing intro: filter_cong)

lemma web_product_id_sent:
  "web_product_id lower label =
     (case map_of products_table label of
        Some entry \<Rightarrow> fst entry
      | None \<Rightarrow> filter (\<lambda>c. c \<noteq> CHR 0x27)
                 (map (\<lambda>c. if c = CHR '' '' then CHR ''-'' else c) (lower label)))"
  by (simp add: web_product_id_def auto_format_def replace_by_char replace_by_nothing
      apostrophe_def split: option.splits prod.splits)

lemma get_product_flexible_stages:
  "get_product_flexible lower db sent =
     (let by_id = (\<lambda>v. find (\<lambda>p. p_id p = v) (products db));
          dashed = map (\<lambda>c. if c = CHR ''_'' then CHR ''-'' else c);
          underscored = map (\<lambda>c. if c = CHR ''-'' then CHR ''_'' else c);
          stripped = filter (\<lambda>c. c \<noteq> CHR ''-'' \<and> c \<noteq> CHR ''_'')
      in case by_id sent of
           Some p \<Rightarrow> Some p
         | None \<Rightarrow>
             (case find (\<lambda>v. by_id v \<noteq> None)
                     [dashed sent, underscored sent, lower sent,
                      dashed (lower sent), underscored (lower sent)] of
                Some v \<Rightarrow> by_id v
              | None \<Rightarrow>
                  find (\<lambda>p. sublist (lower sent) (lower (p_id p)) \<or>
                            lower (stripped (p_id p)) = lower (stripped sent))
                    (products db)))"
proof -
  have by_id: "get_product db = (\<lambda>v. find (\<lambda>p. p_id p = v) (products db))"
    by (rule ext) (simp add: get_product_def get_products_def)
  have pm: "partial_match lower sent =
      (\<lambda>p. sublist (lower sent) (lower (p_id p)) \<or>
           lower (filter (\<lambda>c. c \<noteq> CHR ''-'' \<and> c \<noteq> CHR ''_'') (p_id p)) =
           lower (filter (\<lambda>c. c \<noteq> CHR ''-'' \<and> c \<noteq> CHR ''_'') sent))"
    by (rule ext) (simp add: partial_match_def strip_separators_filter)
  have vs: "variations lower sent =
      [map (\<lambda>c. if c = CHR ''_'' then CHR ''-'' else c) sent,
       map (\<lambda>c. if c = CHR ''-'' then CHR ''_'' else c) sent,
       lower sent,
       map (\<lambda>c. if c = CHR ''_'' then CHR ''-'' else c) (lower sent),
       map (\<lambda>c. if c = CHR ''-'' then CHR ''_'' else c) (lower sent)]"
    by (simp add: variations_def replace_by_char)
  show ?thesis
    unfolding get_product_flexible_def first_variant_find pm vs get_products_def
    unfolding by_id Let_def
    by (simp split: option.splits)
qed


lemma lays_web_id:
  "web_product_id lower (lays @ ''-Flat-Original-Flavor'') = ''lays-flat-original''"
  by (simp add: web_product_id_def products_table_def lays_def apostrophe_def)




text \<open>
  C8, amended. Resolution has no error result for any input string: the only raise of
  \<open>get_product_flexible\<close> is on a product id that is \<open>None\<close>. The client looks the label up
  exactly in its own table of detector labels and sends the web id found there; a label
  that is not in the table is sent lowercased, with every space replaced by one dash (runs
  are not collapsed, other whitespace stays) and apostrophes removed. The raw label is not
  matched against the catalog. The service resolves the id sent in this order: the product
  with exactly that id; else the product of the first of these variants that is an id of
  the catalog: underscores to dashes, dashes to underscores, lowercase, lowercase with
  underscores to dashes, lowercase with dashes to underscores; else the first product of
  the catalog whose lowercased id contains the lowercased id sent, or equals it once
  dashes and underscores are stripped from both; else nothing. Whatever is returned is a
  product of the catalog. The label \<open>Lay's-Flat-Original-Flavor\<close> resolves to the product
  stored under \<open>lays-flat-original\<close>.
\<close>

theorem resolve_fallback_order:
  "resolve lower db label =
     (let sent = (case map_of products_table label of
                    Some entry \<Rightarrow> fst entry
                  | None \<Rightarrow> filter (\<lambda>c. c \<noteq> CHR 0x27)
                             (map (\<lambda>c. if c = CHR '' '' then CHR ''-'' else c) (lower label)));
          by_id = (\<lambda>v. find (\<lambda>p. p_id p = v) (products db));
          dashed = map (\<lambda>c. if c = CHR ''_'' then CHR ''-'' else c);
          underscored = map (\<lambda>c. if c = CHR ''-'' then CHR ''_'' else c);
          stripped = filter (\<lambda>c. c \<noteq> CHR ''-'' \<and> c \<noteq> CHR ''_'')
      in case by_id sent of
           Some p \<Rightarrow> Some p
         | None \<Rightarrow>
             (case find (\<lambda>v. by_id v \<noteq> None)
                     [dashed sent, underscored sent, lower sent,
                      dashed (lower sent), underscored (lower sent)] of
                Some v \<Rightarrow> by_id v
              | None \<Rightarrow>
                  find (\<lambda>p. sublist (lower sent) (lower (p_id p)) \<or>
                            lower (stripped (p_id p)) = lower (stripped sent))
                    (products db))) \<and>
   (\<forall>p. resolve lower db label = Some p \<longrightarrow> p \<in> set (products db)) \<and>
   (\<forall>p. find (\<lambda>p. p_id p = ''lays-flat-original'') (products db) = Some p \<longrightarrow>
      resolve lower db (lays @ ''-Flat-Original-Flavor'') = Some p \<and>
      p_id p = ''lays-flat-original'') \<and>
   (\<forall>s. \<exists>r. get_product_flexible_json lower db (Some s) = Inr r) \<and>
   get_product_flexible_json lower db None = Inl AttributeError"
proof -
  have stages: "resolve lower db label =
     (let sent = (case map_of products_table label of
                    Some entry \<Rightarrow> fst entry
                  | None \<Rightarrow> filter (\<lambda>c. c \<noteq> CHR 0x27)
                             (map (\<lambda>c. if c = CHR '' '' then CHR ''-'' else c) (lower label)));
          by_id = (\<lambda>v. find (\<lambda>p. p_id p = v) (products db));
          dashed = map (\<lambda>c. if c = CHR ''_'' then CHR ''-'' else c);
          underscored = map (\<lambda>c. if c = CHR ''-'' then CHR ''_'' else c);
          stripped = filter (\<lambda>c. c \<noteq> CHR ''-'' \<and> c \<noteq> CHR ''_'')
      in case by_id sent of
           Some p \<Rightarrow> Some p
         | None \<Rightarrow>
             (case find (\<lambda>v. by_id v \<noteq> None)
                     [dashed sent, underscored sent, lower sent,
                      dashed (lower sent), underscored (lower sent)] of
                Some v \<Rightarrow> by_id v
              | None \<Rightarrow>
                  find (\<lambda>p. sublist (lower sent) (lower (p_id p)) \<or>
                            lower (stripped (p_id p)) = lower (stripped sent))
                    (products db)))"
    by (simp only: resolve_def get_product_flexible_stages web_product_id_sent Let_def)
  have catalog: "\<forall>p. resolve lower db label = Some p \<longrightarrow> p \<in> set (products db)"
    using get_product_flexible_in_catalog [of lower db]
    by (simp add: resolve_def get_products_def)
  have lay: "\<forall>p. find (\<lambda>p. p_id p = ''lays-flat-original'') (products db) = Some p \<longrightarrow>
      resolve lower db (lays @ ''-Flat-Original-Flavor'') = Some p \<and>
      p_id p = ''lays-flat-original''"
  proof (intro allI impI)
    fix p
    assume "find (\<lambda>p. p_id p = ''lays-flat-original'') (products db) = Some p"
    then have stored: "get_product db ''lays-flat-original'' = Some p"
      by (simp only: get_product_def get_products_def)
    then have "resolve lower db (lays @ ''-Flat-Original-Flavor'') = Some p"
      by (simp add: resolve_def lays_web_id get_product_flexible_def)
    with get_product_Some [OF stored]
    show "resolve lower db (lays @ ''-Flat-Original-Flavor'') = Some p \<and>
      p_id p = ''lays-flat-original''"
      by simp
  qed
  have total: "\<forall>s. \<exists>r. get_product_flexible_json lower db (Some s) = Inr r"
    and raises: "get_product_flexible_json lower db None = Inl AttributeError"
    by (simp_all add: get_product_flexible_json_def)
  from stages catalog lay total raises show ?thesis
    by (intro conjI)
qed




theorem resolve_fallback_order_witness:
  "resolve ascii_lower ex_db (lays @ ''-Flat-Original-Flavor'') = Some ex_chips \<and>
   resolve ascii_lower ex_db ''Crystal Water'' = Some ex_water \<and>
   resolve ascii_lower ex_db ''Cola_Can'' = Some ex_cola \<and>
   resolve ascii_lower ex_db ''cola'' = Some ex_cola \<and>
   resolve ascii_lower ex_db ''ColaCan'' = Some ex_cola \<and>
   resolve ascii_lower ex_db ''Durian'' = None \<and>
   get_product ex_db ''Crystal Water'' = None \<and>
   get_product ex_db (web_product_id ascii_lower ''Cola_Can'') = None \<and>
   first_variant ex_db (variations ascii_lower (web_product_id ascii_lower ''cola'')) = None \<and>
   first_variant ex_db (variations ascii_lower (web_product_id ascii_lower ''ColaCan'')) = None \<and>
   \<not> sublist (ascii_lower (web_product_id ascii_lower ''ColaCan'')) (ascii_lower (p_id ex_cola))"
proof -
  have earlier_stages:
    "get_product ex_db ''Crystal Water'' = None \<and>
     get_product ex_db (web_product_id ascii_lower ''Cola_Can'') = None \<and>
     first_variant ex_db (variations ascii_lower (web_product_id ascii_lower ''cola'')) = None \<and>
     first_variant ex_db (variations ascii_lower (web_product_id ascii_lower ''ColaCan'')) = None \<and>
     \<not> sublist (ascii_lower (web_product_id ascii_lower ''ColaCan'')) (ascii_lower (p_id ex_cola))"
    by code_simp
  have stored: "find (\<lambda>p. p_id p = ''lays-flat-original'') (products ex_db) = Some ex_chips"
    by (simp add: ex_db_def ex_cola_def ex_chips_def)
  from resolve_fallback_order [of ascii_lower ex_db "''x''"] stored
  have table: "resolve ascii_lower ex_db (lays @ ''-Flat-Original-Flavor'') = Some ex_chips"
    by blast
  have normalized: "resolve ascii_lower ex_db ''Crystal Water'' = Some ex_water"
    by (subst conjunct1 [OF resolve_fallback_order]) code_simp
  have variant: "resolve ascii_lower ex_db ''Cola_Can'' = Some ex_cola"
    by (subst conjunct1 [OF resolve_fallback_order]) code_simp
  have contained: "resolve ascii_lower ex_db ''cola'' = Some ex_cola"
    by (subst conjunct1 [OF resolve_fallback_order]) code_simp
  have stripped: "resolve ascii_lower ex_db ''ColaCan'' = Some ex_cola"
    by (subst conjunct1 [OF resolve_fallback_order]) code_simp
  have unknown: "resolve ascii_lower ex_db ''Durian'' = None"
    by (subst conjunct1 [OF resolve_fallback_order]) code_simp
  from table normalized variant contained stripped unknown earlier_stages show ?thesis
    by (intro conjI) simp_all
qed

text \<open>
  The claim as first stated fails in two places. The normal form with runs of whitespace
  collapsed to one dash is not what the client computes: two spaces give two dashes, and
  with the ids \<open>ab\<close> and \<open>a-b\<close> in the catalog the label \<open>A  B\<close>, whose stated normal form
  is the id \<open>a-b\<close>, falls through to the partial match and gets the product \<open>ab\<close>. And
  there is no exact match of the label before it is normalized: with the ids \<open>Foobar\<close> and
  \<open>Foo\<close> in the catalog the label \<open>Foo\<close> is sent as \<open>foo\<close> and gets the product
  \<open>Foobar\<close> by containment.
\<close>

theorem resolve_as_stated_counterexample:
  "spec_normalize ascii_lower ''A  B'' = ''a-b'' \<and>
   auto_format ascii_lower ''A  B'' = ''a--b'' \<and>
   map_option p_id (get_product ex_db_ids (spec_normalize ascii_lower ''A  B'')) = Some ''a-b'' \<and>
   map_option p_id (resolve ascii_lower ex_db_ids ''A  B'') = Some ''ab'' \<and>
   map_option p_id (get_product ex_db_foo ''Foo'') = Some ''Foo'' \<and>
   map_option p_id (resolve ascii_lower ex_db_foo ''Foo'') = Some ''Foobar''"
  by code_simp


end
